theory Spec2Isabelle
  imports Complex_Main "HOL-Library.Word" "HOL-Library.Signed_Division"
begin

section \<open>Elevation import of the StreetMap plugin (Elevation.cpp)\<close>

text \<open>
  A shallow embedding of \<^verbatim>\<open>Source/StreetMapImporting/GISUtils/Elevation.cpp\<close>:
  the per-tile download state machine \<^verbatim>\<open>FCachedElevationFile\<close>, the elevation
  model \<^verbatim>\<open>FElevationModel\<close> (tile acquisition loop, Lanczos resampling,
  quantisation) and the blend weight rasterisation of \<^verbatim>\<open>CreateLandscape\<close>.

  Conventions of the embedding.
  \<^item> \<^verbatim>\<open>uint8\<close>, \<^verbatim>\<open>uint16\<close> and \<^verbatim>\<open>uint32\<close> are words of that width; a C++
    conversion to one of them is \<open>word_of_int\<close> (it wraps).  \<^verbatim>\<open>int32\<close> values are
    \<open>int\<close>: none of the quantities followed here leaves the 32 bit range (the largest,
    \<^verbatim>\<open>Size * Size\<close>, stays in it for every grid of less than 23171 vertices on either
    side of the origin).
  \<^item> A finite \<^verbatim>\<open>float\<close> is a \<open>real\<close> and the operations on finite floats are the
    exact ones.  The decoded elevations are multiples of \<open>1/256\<close> below \<open>2^16\<close>, so they
    are floats exactly.  Where the program can divide by zero or leave the finite
    floats (the elevation range and the quantisation, the weight normalisation of the
    Lanczos stencil, the square root in the blend weights) the IEEE special values are
    kept apart in the type \<open>float32\<close> below.
  \<^item> The progress dialog, \<^verbatim>\<open>FPlatformProcess::Sleep\<close> and the tick of the HTTP
    manager change nothing the program reads back except through the clock, the
    request status and the cancel button, which are arguments as well.
  \<^item> Undefined behaviour of C++ (a null pointer that is dereferenced, a read behind the
    end of a buffer, a non-finite float converted to an integer) is a value \<open>Inl e\<close> of a
    sum type.
  \<^item> What the engine and the network show to the program (the image codec, the file
    cache, the clock, the HTTP requests, the projection, the polygon distance) is an
    argument of the function that reads it.
  \<^item> \<^verbatim>\<open>FName\<close> and \<^verbatim>\<open>FString\<close> values are strings, compared as the engine compares
    them, without regard to case.
\<close>

type_synonym uint8 = "8 word"
type_synonym uint16 = "16 word"
type_synonym uint32 = "32 word"

datatype error = NullPointer | OutOfBounds | FloatToIntUndefined

subsection \<open>Engine types read by the code\<close>

text \<open>\<^verbatim>\<open>FTiledMap\<close> (TiledMap.h): the fields the code reads.\<close>

record FTiledMap =
  TileWidth :: int
  TileHeight :: int
  NumLevels :: uint32

text \<open>
  \<^verbatim>\<open>ERGBFormat\<close> and the view the image wrapper gives of a compressed PNG once
  \<^verbatim>\<open>SetCompressed\<close> has accepted it: \<^verbatim>\<open>GetBitDepth\<close>, \<^verbatim>\<open>GetFormat\<close>,
  \<^verbatim>\<open>GetWidth\<close>, \<^verbatim>\<open>GetHeight\<close>, and the buffer of \<^verbatim>\<open>GetRaw\<close> for that format and
  bit depth (\<open>None\<close> when \<^verbatim>\<open>GetRaw\<close> returns false).
\<close>

datatype ERGBFormat = Invalid | RGBA | BGRA | Gray

record ImageWrapper =
  GetBitDepth :: int
  GetFormat :: ERGBFormat
  GetWidth :: int
  GetHeight :: int
  GetRaw :: "uint8 list option"

text \<open>
  The codec: \<open>SetCompressed RawData\<close> is \<open>None\<close> when no wrapper can be created or
  \<^verbatim>\<open>SetCompressed\<close> refuses the bytes.
\<close>

type_synonym codec = "uint8 list \<Rightarrow> ImageWrapper option"

text \<open>\<^verbatim>\<open>EHttpRequestStatus\<close> and a request, named by the arguments of its URL.\<close>

datatype EHttpRequestStatus =
  HttpNotStarted | HttpProcessing | HttpFailed | HttpFailed_ConnectionError | HttpSucceeded

datatype IHttpRequest = HttpGet uint32 uint32 uint32

subsection \<open>\<^verbatim>\<open>FCachedElevationFile\<close>\<close>

text \<open>
  \<^verbatim>\<open>TNumericLimits<float>::Max()\<close>, the largest finite float, \<open>(2^24 - 1) * 2^104\<close>;
  \<^verbatim>\<open>Lowest()\<close> is its negation.
\<close>

definition FloatMax :: real where
  "FloatMax = (2 ^ 24 - 1) * 2 ^ 104"

record FCachedElevationFile =
  WasInitialized :: bool
  WasDownloadSuccessful :: bool
  Failed :: bool
  StartTime :: int
  TimeSpan :: int
  HttpRequest :: "IHttpRequest option"
  Elevation :: "real list"
  X :: uint32
  Y :: uint32
  Z :: uint32
  ElevationMin :: real
  ElevationMax :: real

text \<open>The constructor.  \<open>now\<close> is \<^verbatim>\<open>FDateTime::UtcNow()\<close>, in ticks.\<close>

definition NewCachedElevationFile :: "int \<Rightarrow> uint32 \<Rightarrow> uint32 \<Rightarrow> uint32 \<Rightarrow> FCachedElevationFile" where
  "NewCachedElevationFile now x y z =
     \<lparr> WasInitialized = False, WasDownloadSuccessful = False, Failed = False,
       StartTime = now, TimeSpan = 0, HttpRequest = None, Elevation = [],
       X = x, Y = y, Z = z, ElevationMin = FloatMax, ElevationMax = - FloatMax \<rparr>"

definition MaxNumPendingDownloads :: int where
  "MaxNumPendingDownloads = 10"

subsubsection \<open>\<^verbatim>\<open>UnpackElevation\<close>\<close>

text \<open>
  The body of the pixel loop for the three channel bytes \<^verbatim>\<open>Data[0]\<close>, \<^verbatim>\<open>Data[1]\<close>,
  \<^verbatim>\<open>Data[2]\<close>: the value written to the elevation array, and whether the sample is
  valid (only then it is shifted by 32768 and enters the minimum and maximum).
\<close>

definition RawElevationValue :: "uint8 \<Rightarrow> uint8 \<Rightarrow> uint8 \<Rightarrow> real" where
  "RawElevationValue d0 d1 d2 = real (unat d0) * 256 + real (unat d1) + real (unat d2) / 256"

definition IsValid :: "real \<Rightarrow> bool" where
  "IsValid ElevationValue = (ElevationValue > 0 \<and> ElevationValue < 41768)"

definition StoredElevationValue :: "uint8 \<Rightarrow> uint8 \<Rightarrow> uint8 \<Rightarrow> real" where
  "StoredElevationValue d0 d1 d2 =
     (let ElevationValue = RawElevationValue d0 d1 d2
      in if IsValid ElevationValue then ElevationValue - 32768 else ElevationValue)"

text \<open>
  The loop \<^verbatim>\<open>while (ElevationData < ElevationDataEnd)\<close>: \<open>n\<close> pixels are still to be
  written, \<open>Data\<close> is the rest of the raw buffer (it advances by 4 bytes per pixel, the
  fourth byte is never read), \<open>acc\<close> the elevations written so far.  Reading behind the
  end of the buffer is \<open>Inl OutOfBounds\<close>.
\<close>

fun UnpackPixels ::
  "nat \<Rightarrow> uint8 list \<Rightarrow> real list \<Rightarrow> real \<Rightarrow> real \<Rightarrow> error + (real list \<times> real \<times> real)" where
  "UnpackPixels 0 Data acc emin emax = Inr (acc, emin, emax)"
| "UnpackPixels (Suc n) (d0 # d1 # d2 # Data) acc emin emax =
     (let ElevationValue = RawElevationValue d0 d1 d2;
          v = StoredElevationValue d0 d1 d2;
          emin' = (if IsValid ElevationValue then min emin v else emin);
          emax' = (if IsValid ElevationValue then max emax v else emax)
      in UnpackPixels n (drop 1 Data) (acc @ [v]) emin' emax')"
| "UnpackPixels (Suc n) Data acc emin emax = Inl OutOfBounds"

text \<open>
  \<^verbatim>\<open>UnpackElevation\<close>: the result is the returned flag and the file object after the
  call.  A raster of the wrong size or format returns false before anything is written.
  When \<^verbatim>\<open>GetRaw\<close> fails the function still returns true and leaves the object as it
  is.
\<close>

definition UnpackElevation ::
  "codec \<Rightarrow> FTiledMap \<Rightarrow> uint8 list \<Rightarrow> FCachedElevationFile \<Rightarrow> error + (bool \<times> FCachedElevationFile)" where
  "UnpackElevation SetCompressed TiledMap RawData f =
     (case SetCompressed RawData of
        None \<Rightarrow> Inr (False, f)
      | Some Png \<Rightarrow>
          if GetWidth Png \<noteq> TileWidth TiledMap \<or> GetHeight Png \<noteq> TileHeight TiledMap
          then Inr (False, f)
          else if GetFormat Png \<noteq> RGBA \<or> GetBitDepth Png \<noteq> 8
          then Inr (False, f)
          else (case GetRaw Png of
                  None \<Rightarrow> Inr (True, f)
                | Some Data \<Rightarrow>
                    (case UnpackPixels (nat (GetWidth Png * GetHeight Png)) Data []
                            (ElevationMin f) (ElevationMax f) of
                       Inl e \<Rightarrow> Inl e
                     | Inr (elev, emin, emax) \<Rightarrow>
                         Inr (True, f\<lparr>Elevation := elev, ElevationMin := emin,
                                      ElevationMax := emax\<rparr>))))"

subsubsection \<open>\<^verbatim>\<open>Tick\<close> and the functions it calls\<close>

text \<open>
  What the outside shows to one call of \<^verbatim>\<open>Tick\<close>: the content of the tile's cache
  file (\<^verbatim>\<open>FFileHelper::LoadFileToArray\<close>, \<open>None\<close> when it fails), the clock read by
  \<^verbatim>\<open>Initialize\<close>, the flag returned by \<^verbatim>\<open>ProcessRequest\<close>, the clock read by
  \<^verbatim>\<open>Tick\<close>, the status of the request and the content of its response (\<open>None\<close> for an
  invalid response pointer).  The cache file is written by \<^verbatim>\<open>OnDownloadSucceeded\<close>
  after the only read of it, so the write is not followed.
\<close>

record TickEnv =
  LoadFileToArray :: "uint8 list option"
  UtcNowInitialize :: int
  ProcessRequest :: bool
  UtcNowTick :: int
  GetStatus :: EHttpRequestStatus
  GetResponse :: "uint8 list option"

text \<open>
  \<^verbatim>\<open>FTimespan::GetSeconds\<close>: the seconds component of a time span given in ticks of
  100 nanoseconds, \<^verbatim>\<open>(Ticks / TicksPerSecond) % 60\<close> with the truncating division and
  remainder of C++.
\<close>

definition GetSeconds :: "int \<Rightarrow> int" where
  "GetSeconds Ticks = (Ticks sdiv 10000000) smod 60"

definition HasFinished :: "FCachedElevationFile \<Rightarrow> bool" where
  "HasFinished f = (WasDownloadSuccessful f \<or> Failed f)"

definition Succeeded :: "FCachedElevationFile \<Rightarrow> bool" where
  "Succeeded f = WasDownloadSuccessful f"

text \<open>
  The static counter \<^verbatim>\<open>NumPendingDownloads\<close> is threaded through as the first
  component of a pair with the file object.
\<close>

definition OnDownloadSucceeded ::
  "codec \<Rightarrow> FTiledMap \<Rightarrow> uint8 list option \<Rightarrow> int \<times> FCachedElevationFile
     \<Rightarrow> error + (int \<times> FCachedElevationFile)" where
  "OnDownloadSucceeded SetCompressed TiledMap Response nf =
     (case nf of (n, f) \<Rightarrow>
        (case Response of
           None \<Rightarrow> Inr (n - 1, f\<lparr>WasDownloadSuccessful := True\<rparr>)
         | Some Content \<Rightarrow>
             (case UnpackElevation SetCompressed TiledMap Content f of
                Inl e \<Rightarrow> Inl e
              | Inr (ok, f') \<Rightarrow>
                  if \<not> ok then Inr (n - 1, f'\<lparr>Failed := True\<rparr>)
                  else Inr (n - 1, f'\<lparr>WasDownloadSuccessful := True\<rparr>))))"

definition DownloadFile :: "bool \<Rightarrow> int \<times> FCachedElevationFile \<Rightarrow> int \<times> FCachedElevationFile" where
  "DownloadFile ProcessRequestOk nf =
     (case nf of (n, f) \<Rightarrow>
        (let f' = f\<lparr>HttpRequest := Some (HttpGet (Z f) (X f) (Y f))\<rparr>
         in if ProcessRequestOk then (n + 1, f') else (n, f'\<lparr>Failed := True\<rparr>)))"

definition Initialize ::
  "codec \<Rightarrow> FTiledMap \<Rightarrow> TickEnv \<Rightarrow> int \<times> FCachedElevationFile
     \<Rightarrow> error + (int \<times> FCachedElevationFile)" where
  "Initialize SetCompressed TiledMap env nf =
     (case nf of (n, f) \<Rightarrow>
        (let f1 = f\<lparr>WasInitialized := True, StartTime := UtcNowInitialize env\<rparr>
         in case LoadFileToArray env of
              None \<Rightarrow> Inr (DownloadFile (ProcessRequest env) (n, f1))
            | Some RawData \<Rightarrow>
                (case UnpackElevation SetCompressed TiledMap RawData f1 of
                   Inl e \<Rightarrow> Inl e
                 | Inr (ok, f2) \<Rightarrow>
                     if ok then Inr (n, f2\<lparr>WasDownloadSuccessful := True\<rparr>)
                     else Inr (DownloadFile (ProcessRequest env) (n, f2)))))"

definition CancelRequest :: "int \<times> FCachedElevationFile \<Rightarrow> int \<times> FCachedElevationFile" where
  "CancelRequest nf =
     (case nf of (n, f) \<Rightarrow>
        (case HttpRequest f of
           None \<Rightarrow> (n, f\<lparr>Failed := True\<rparr>)
         | Some r \<Rightarrow> (n - 1, f\<lparr>Failed := True\<rparr>)))"

text \<open>
  The part of \<^verbatim>\<open>Tick\<close> behind the initialisation.  \<^verbatim>\<open>HttpRequest->\<close> on a null
  request is \<open>Inl NullPointer\<close>.
\<close>

definition TickInitialized ::
  "codec \<Rightarrow> FTiledMap \<Rightarrow> TickEnv \<Rightarrow> int \<times> FCachedElevationFile
     \<Rightarrow> error + (int \<times> FCachedElevationFile)" where
  "TickInitialized SetCompressed TiledMap env nf =
     (case nf of (n, f) \<Rightarrow>
        if WasDownloadSuccessful f \<or> Failed f then Inr (n, f)
        else if GetSeconds (TimeSpan f) > 10 then
          (case HttpRequest f of
             None \<Rightarrow> Inl NullPointer
           | Some r \<Rightarrow> Inr (n - 1, f\<lparr>Failed := True\<rparr>))
        else
          (let f1 = f\<lparr>TimeSpan := UtcNowTick env - StartTime f\<rparr>
           in case HttpRequest f1 of
                None \<Rightarrow> Inl NullPointer
              | Some r \<Rightarrow>
                  if GetStatus env = HttpFailed \<or> GetStatus env = HttpFailed_ConnectionError
                  then Inr (n - 1, f1\<lparr>Failed := True\<rparr>)
                  else if GetStatus env = HttpSucceeded
                  then OnDownloadSucceeded SetCompressed TiledMap (GetResponse env) (n, f1)
                  else Inr (n, f1)))"

definition Tick ::
  "codec \<Rightarrow> FTiledMap \<Rightarrow> TickEnv \<Rightarrow> int \<times> FCachedElevationFile
     \<Rightarrow> error + (int \<times> FCachedElevationFile)" where
  "Tick SetCompressed TiledMap env nf =
     (case nf of (n, f) \<Rightarrow>
        if \<not> WasInitialized f then
          (if n \<ge> MaxNumPendingDownloads then Inr (n, f)
           else (case Initialize SetCompressed TiledMap env (n, f) of
                   Inl e \<Rightarrow> Inl e
                 | Inr nf1 \<Rightarrow> TickInitialized SetCompressed TiledMap env nf1))
        else TickInitialized SetCompressed TiledMap env (n, f))"

subsection \<open>Floats with their special values\<close>

text \<open>
  A \<^verbatim>\<open>float\<close> with the special values of IEEE 754 kept apart.  Only the operations
  the quantisation and the blend weights use are defined.  A zero is taken as
  positive (\<open>max - min\<close> of two equal floats is \<open>+0\<close>).
\<close>

datatype float32 = Finite real | PlusInfinity | MinusInfinity | NaN

fun fsub :: "float32 \<Rightarrow> float32 \<Rightarrow> float32" where
  "fsub (Finite a) (Finite b) = Finite (a - b)"
| "fsub NaN b = NaN"
| "fsub a NaN = NaN"
| "fsub PlusInfinity PlusInfinity = NaN"
| "fsub MinusInfinity MinusInfinity = NaN"
| "fsub PlusInfinity b = PlusInfinity"
| "fsub MinusInfinity b = MinusInfinity"
| "fsub a PlusInfinity = MinusInfinity"
| "fsub a MinusInfinity = PlusInfinity"

fun fneg :: "float32 \<Rightarrow> float32" where
  "fneg (Finite a) = Finite (- a)"
| "fneg PlusInfinity = MinusInfinity"
| "fneg MinusInfinity = PlusInfinity"
| "fneg NaN = NaN"

fun fmul :: "float32 \<Rightarrow> float32 \<Rightarrow> float32" where
  "fmul (Finite a) (Finite b) = Finite (a * b)"
| "fmul NaN b = NaN"
| "fmul a NaN = NaN"
| "fmul (Finite a) b = (if a = 0 then NaN else if a > 0 then b else fneg b)"
| "fmul a (Finite b) = (if b = 0 then NaN else if b > 0 then a else fneg a)"
| "fmul PlusInfinity b = b"
| "fmul MinusInfinity b = fneg b"

fun fdiv :: "float32 \<Rightarrow> float32 \<Rightarrow> float32" where
  "fdiv (Finite a) (Finite b) =
     (if b \<noteq> 0 then Finite (a / b)
      else if a = 0 then NaN else if a > 0 then PlusInfinity else MinusInfinity)"
| "fdiv NaN b = NaN"
| "fdiv a NaN = NaN"
| "fdiv (Finite a) b = Finite 0"
| "fdiv a (Finite b) = (if b \<ge> 0 then a else fneg a)"
| "fdiv a b = NaN"

text \<open>
  \<^verbatim>\<open>FMath::RoundToInt\<close>, which is \<^verbatim>\<open>FloorToInt(F + 0.5f)\<close>.  The conversion of a
  float that is not finite, or whose value is outside \<^verbatim>\<open>int32\<close>, is undefined.
\<close>

fun RoundToInt :: "float32 \<Rightarrow> error + int" where
  "RoundToInt (Finite F) =
     (if - (2 ^ 31) \<le> \<lfloor>F + 1 / 2\<rfloor> \<and> \<lfloor>F + 1 / 2\<rfloor> < 2 ^ 31 then Inr \<lfloor>F + 1 / 2\<rfloor>
      else Inl FloatToIntUndefined)"
| "RoundToInt F = Inl FloatToIntUndefined"

subsection \<open>\<^verbatim>\<open>FElevationModel\<close>: loading the tiles\<close>

text \<open>
  The members of \<^verbatim>\<open>FElevationModel\<close> (the constant \<^verbatim>\<open>TiledMap\<close> is an argument
  of the functions).  The members \<^verbatim>\<open>ElevationMin\<close> and \<^verbatim>\<open>ElevationMax\<close> carry the
  prefix \<open>Model\<close> here, to keep them apart from those of the file object; of the
  transform only the scale is set, and its vertical component is computed from the
  elevation range, which need not be finite.
\<close>

record FElevationModel =
  FilesDownloaded :: "FCachedElevationFile list"
  ModelElevationMin :: real
  ModelElevationMax :: real
  Scale3D :: "real \<times> real \<times> float32"

definition NewElevationModel :: FElevationModel where
  "NewElevationModel =
     \<lparr> FilesDownloaded = [], ModelElevationMin = FloatMax, ModelElevationMax = - FloatMax,
       Scale3D = (1, 1, Finite 1) \<rparr>"

text \<open>
  The outside during the download loop: what the \<open>n\<close>-th call of \<^verbatim>\<open>Tick\<close> of the job
  sees, and what \<^verbatim>\<open>GWarn->ReceivedUserCancel()\<close> answers in the \<open>n\<close>-th iteration of
  the \<^verbatim>\<open>while\<close> loop (both counted from 0).
\<close>

record World =
  TickEnvAt :: "nat \<Rightarrow> TickEnv"
  ReceivedUserCancel :: "nat \<Rightarrow> bool"

text \<open>
  The state of the download loop: the members of the model, the static counter, the
  locals \<^verbatim>\<open>FilesToDownload\<close> and \<^verbatim>\<open>Progress\<close>, and three fields that are not program
  state but record the run: the number of calls of \<^verbatim>\<open>Tick\<close> and of iterations so
  far (the positions in the \<open>World\<close>), and the calls of \<^verbatim>\<open>Tick\<close> and
  \<^verbatim>\<open>CancelRequest\<close> in the order they were made, each with the \<open>X\<close> and \<open>Y\<close> of the
  file it was made on.
\<close>

datatype call = TickCall uint32 uint32 | CancelCall uint32 uint32

record DownloadState = FElevationModel +
  NumPendingDownloads :: int
  FilesToDownload :: "FCachedElevationFile list"
  Progress :: real
  NumTicks :: nat
  NumRounds :: nat
  Calls :: "call list"

text \<open>How the \<^verbatim>\<open>for\<close> loop over \<^verbatim>\<open>FilesToDownload\<close> was left.\<close>

datatype outcome = NoneFinished | FileSucceeded | FileFailed

text \<open>
  The inner loop of the failure branch: \<^verbatim>\<open>CancelRequest\<close> on every file still in
  \<^verbatim>\<open>FilesToDownload\<close>.
\<close>

fun CancelFiles :: "FCachedElevationFile list \<Rightarrow> DownloadState \<Rightarrow> DownloadState" where
  "CancelFiles [] s = s"
| "CancelFiles (f # fs) s =
     (case CancelRequest (NumPendingDownloads s, f) of
        (n, f') \<Rightarrow>
          CancelFiles fs (s\<lparr>NumPendingDownloads := n,
                            Calls := Calls s @ [CancelCall (X f) (Y f)]\<rparr>))"

text \<open>
  The \<^verbatim>\<open>for\<close> loop over \<^verbatim>\<open>FilesToDownload\<close>.  \<open>ticked\<close> are the files before the
  loop position (ticked in this iteration, not finished), the list argument behind it
  the files from the loop position on.  The file objects are shared with the array, so
  the array holds each file as \<^verbatim>\<open>Tick\<close> left it.  \<^verbatim>\<open>Remove\<close> takes the file at the
  loop position out of the array (the shared pointers of the array are distinct), and
  the \<^verbatim>\<open>break\<close> ends the loop there.
\<close>

fun TickFiles ::
  "codec \<Rightarrow> FTiledMap \<Rightarrow> World \<Rightarrow> nat \<Rightarrow> FCachedElevationFile list \<Rightarrow> FCachedElevationFile list
     \<Rightarrow> DownloadState \<Rightarrow> error + (outcome \<times> DownloadState)" where
  "TickFiles SetCompressed TiledMap world NumFilesToDownload ticked [] s =
     Inr (NoneFinished, s\<lparr>FilesToDownload := ticked\<rparr>)"
| "TickFiles SetCompressed TiledMap world NumFilesToDownload ticked (FileToDownload # rest) s =
     (case Tick SetCompressed TiledMap (TickEnvAt world (NumTicks s))
             (NumPendingDownloads s, FileToDownload) of
        Inl e \<Rightarrow> Inl e
      | Inr (n, f) \<Rightarrow>
          (let s1 = s\<lparr>NumPendingDownloads := n, NumTicks := NumTicks s + 1,
                        Calls := Calls s @ [TickCall (X FileToDownload) (Y FileToDownload)]\<rparr>
           in if HasFinished f then
                (let s2 = s1\<lparr>FilesToDownload := ticked @ rest,
                               Progress := 1 / real NumFilesToDownload\<rparr>
                 in if Succeeded f then
                      Inr (FileSucceeded,
                           s2\<lparr>FilesDownloaded := FilesDownloaded s2 @ [f],
                              ModelElevationMin := min (ModelElevationMin s2) (ElevationMin f),
                              ModelElevationMax := max (ModelElevationMax s2) (ElevationMax f)\<rparr>)
                    else
                      Inr (FileFailed, (CancelFiles (ticked @ rest) s2)\<lparr>FilesToDownload := []\<rparr>))
              else TickFiles SetCompressed TiledMap world NumFilesToDownload (ticked @ [f]) rest s1))"

text \<open>
  One iteration of the \<^verbatim>\<open>while\<close> loop behind the test for a user cancel.
\<close>

definition Round ::
  "codec \<Rightarrow> FTiledMap \<Rightarrow> World \<Rightarrow> nat \<Rightarrow> DownloadState \<Rightarrow> error + (outcome \<times> DownloadState)" where
  "Round SetCompressed TiledMap world NumFilesToDownload s =
     (case TickFiles SetCompressed TiledMap world NumFilesToDownload [] (FilesToDownload s)
             (s\<lparr>Progress := 0\<rparr>) of
        Inl e \<Rightarrow> Inl e
      | Inr (out, s') \<Rightarrow> Inr (out, s'\<lparr>NumRounds := NumRounds s' + 1\<rparr>))"

text \<open>
  The loop \<^verbatim>\<open>while (FilesToDownload.Num())\<close>.  Nothing bounds the number of its
  iterations (a file that is never initialised because the counter stays at its
  maximum is ticked for ever), so the model counts them down from \<open>fuel\<close>: \<open>None\<close>
  says that the loop has not ended within \<open>fuel\<close> iterations.
\<close>

fun DownloadLoop ::
  "nat \<Rightarrow> codec \<Rightarrow> FTiledMap \<Rightarrow> World \<Rightarrow> nat \<Rightarrow> DownloadState \<Rightarrow> (error + DownloadState) option" where
  "DownloadLoop 0 SetCompressed TiledMap world NumFilesToDownload s =
     (if FilesToDownload s = [] then Some (Inr s)
      else if ReceivedUserCancel world (NumRounds s) then Some (Inr s)
      else None)"
| "DownloadLoop (Suc fuel) SetCompressed TiledMap world NumFilesToDownload s =
     (if FilesToDownload s = [] then Some (Inr s)
      else if ReceivedUserCancel world (NumRounds s) then Some (Inr s)
      else (case Round SetCompressed TiledMap world NumFilesToDownload s of
              Inl e \<Rightarrow> Some (Inl e)
            | Inr (out, s') \<Rightarrow>
                DownloadLoop fuel SetCompressed TiledMap world NumFilesToDownload s'))"


text \<open>
  The files of step 1 of \<^verbatim>\<open>LoadElevationData\<close>.  \<open>ToEPSG3857\<close> is the projection of
  \<^verbatim>\<open>FSpatialReferenceSystem\<close> (\<open>None\<close> when it returns false) and \<open>GetTileXY\<close> the
  function of \<^verbatim>\<open>FTiledMap\<close> with the pixel position as second result; neither is part
  of this file.  \<open>NumVerticesForRadius\<close> is the result of
  \<^verbatim>\<open>GetNumVerticesForRadius\<close>.  The result \<open>None\<close> is the early return for invalid
  bounds.
\<close>

type_synonym projection = "real \<times> real \<Rightarrow> (real \<times> real) option"
type_synonym tiling = "real \<Rightarrow> real \<Rightarrow> uint32 \<Rightarrow> (int \<times> int) \<times> (real \<times> real)"

definition CollectFiles ::
  "FTiledMap \<Rightarrow> projection \<Rightarrow> tiling \<Rightarrow> int \<Rightarrow> real \<Rightarrow> int \<Rightarrow> FCachedElevationFile list option" where
  "CollectFiles TiledMap ToEPSG3857 GetTileXY NumVerticesForRadius QuadSize now =
     (let FinalRadius = real_of_int NumVerticesForRadius * QuadSize
      in case ToEPSG3857 (- FinalRadius, FinalRadius) of
           None \<Rightarrow> None
         | Some (West, South) \<Rightarrow>
             (case ToEPSG3857 (FinalRadius, - FinalRadius) of
                None \<Rightarrow> None
              | Some (East, North) \<Rightarrow>
                  (let LevelIndex = NumLevels TiledMap - 1;
                       NumTiles = (2 :: int) ^ unat LevelIndex;
                       SouthWestTileXY = fst (GetTileXY West South LevelIndex);
                       NorthEastTileXY = fst (GetTileXY East North LevelIndex);
                       MinX = max (min (fst SouthWestTileXY) (fst NorthEastTileXY) - 1) 0;
                       MinY = max (min (snd SouthWestTileXY) (snd NorthEastTileXY) - 1) 0;
                       MaxX = min (max (fst SouthWestTileXY) (fst NorthEastTileXY) + 1) (NumTiles - 1);
                       MaxY = min (max (snd SouthWestTileXY) (snd NorthEastTileXY) + 1) (NumTiles - 1)
                   in Some (concat (map (\<lambda>y. map (\<lambda>x. NewCachedElevationFile now
                                                           (word_of_int x) (word_of_int y) LevelIndex)
                                                  [MinX..MaxX])
                                        [MinY..MaxY])))))"

text \<open>
  Step 2 of \<^verbatim>\<open>LoadElevationData\<close> on a model \<open>m\<close> with the static counter at \<open>n\<close>:
  the returned flag and the state the loop ended in.
\<close>

definition StartDownload :: "FElevationModel \<Rightarrow> int \<Rightarrow> FCachedElevationFile list \<Rightarrow> DownloadState" where
  "StartDownload m n files =
     \<lparr> FilesDownloaded = FilesDownloaded m, ModelElevationMin = ModelElevationMin m,
       ModelElevationMax = ModelElevationMax m, Scale3D = Scale3D m,
       NumPendingDownloads = n, FilesToDownload = files, Progress = 0,
       NumTicks = 0, NumRounds = 0, Calls = [] \<rparr>"

definition DownloadFiles ::
  "nat \<Rightarrow> codec \<Rightarrow> FTiledMap \<Rightarrow> World \<Rightarrow> FElevationModel \<Rightarrow> int \<Rightarrow> FCachedElevationFile list
     \<Rightarrow> (error + (bool \<times> DownloadState)) option" where
  "DownloadFiles fuel SetCompressed TiledMap world m n files =
     (let NumFilesToDownload = length files
      in case DownloadLoop fuel SetCompressed TiledMap world NumFilesToDownload
                (StartDownload m n files) of
           None \<Rightarrow> None
         | Some (Inl e) \<Rightarrow> Some (Inl e)
         | Some (Inr s) \<Rightarrow>
             if length (FilesDownloaded s) < NumFilesToDownload then Some (Inr (False, s))
             else Some (Inr (True, s)))"

definition LoadElevationData ::
  "nat \<Rightarrow> codec \<Rightarrow> FTiledMap \<Rightarrow> projection \<Rightarrow> tiling \<Rightarrow> World \<Rightarrow> int \<Rightarrow> real \<Rightarrow> int
     \<Rightarrow> FElevationModel \<Rightarrow> int \<Rightarrow> (error + (bool \<times> DownloadState)) option" where
  "LoadElevationData fuel SetCompressed TiledMap ToEPSG3857 GetTileXY world
       NumVerticesForRadius QuadSize now m n =
     (case CollectFiles TiledMap ToEPSG3857 GetTileXY NumVerticesForRadius QuadSize now of
        None \<Rightarrow> Some (Inr (False, StartDownload m n []))
      | Some files \<Rightarrow> DownloadFiles fuel SetCompressed TiledMap world m n files)"

subsection \<open>\<^verbatim>\<open>FElevationModel\<close>: reprojection\<close>

text \<open>\<^verbatim>\<open>EvalLanczos<3>\<close>.\<close>

definition EvalLanczos :: "real \<Rightarrow> real" where
  "EvalLanczos x =
     (if x > - 0.0001 \<and> x < 0.0001 then 1
      else (let xpi = x * pi; xUnit = xpi / 3; xpiSqr = xpi * xpi;
                sincx = sin xpi; sincxUnit = sin xUnit
            in 3 * sincx * sincxUnit / xpiSqr))"

definition Taps :: "(int \<times> int) list" where
  "Taps = [(0, -2), (-1, -1), (0, -1), (1, -1), (-2, 0), (-1, 0), (0, 0), (1, 0), (2, 0),
           (-1, 1), (0, 1), (1, 1), (0, 2)]"

text \<open>The cast \<^verbatim>\<open>(int32)\<close> of a float: truncation towards zero.\<close>

definition TruncToInt :: "real \<Rightarrow> int" where
  "TruncToInt x = (if x \<ge> 0 then \<lfloor>x\<rfloor> else \<lceil>x\<rceil>)"

text \<open>
  The tap loop of \<^verbatim>\<open>SampleElevationLanczos\<close>, with the two sums as accumulators.
  The index is computed in \<^verbatim>\<open>uint32\<close>, as the C++ expression is; a read outside the
  elevation array is \<open>Inl OutOfBounds\<close>.
\<close>

fun SampleTaps ::
  "real list \<Rightarrow> uint32 \<Rightarrow> int \<Rightarrow> int \<Rightarrow> real \<Rightarrow> real \<Rightarrow> (int \<times> int) list \<Rightarrow> real \<Rightarrow> real
     \<Rightarrow> error + (real \<times> real)" where
  "SampleTaps ElevationData DataWidth ElevationX ElevationY x y [] ElevationValue LanczosWeightSum =
     Inr (ElevationValue, LanczosWeightSum)"
| "SampleTaps ElevationData DataWidth ElevationX ElevationY x y (Tap # rest) ElevationValue
       LanczosWeightSum =
     (let TapX = x - real_of_int (fst Tap);
          TapY = y - real_of_int (snd Tap);
          Distance = sqrt (TapX * TapX + TapY * TapY);
          LanczosWeight = EvalLanczos Distance;
          i = unat (DataWidth * word_of_int (ElevationY + snd Tap) + word_of_int ElevationX
                      + word_of_int (fst Tap))
      in if i < length ElevationData
         then SampleTaps ElevationData DataWidth ElevationX ElevationY x y rest
                (ElevationValue + ElevationData ! i * LanczosWeight)
                (LanczosWeightSum + LanczosWeight)
         else Inl OutOfBounds)"

definition SampleElevationLanczos ::
  "real list \<Rightarrow> uint32 \<Rightarrow> uint32 \<Rightarrow> real \<times> real \<Rightarrow> error + float32" where
  "SampleElevationLanczos ElevationData DataWidth DataHeight PixelXY =
     (let ElevationX = TruncToInt (fst PixelXY);
          ElevationY = TruncToInt (snd PixelXY);
          x = fst PixelXY - real_of_int ElevationX;
          y = snd PixelXY - real_of_int ElevationY
      in case SampleTaps ElevationData DataWidth ElevationX ElevationY x y Taps 0 0 of
           Inl e \<Rightarrow> Inl e
         | Inr (ElevationValue, LanczosWeightSum) \<Rightarrow>
             Inr (fdiv (Finite ElevationValue) (Finite LanczosWeightSum)))"

text \<open>
  \<^verbatim>\<open>GetTile\<close>: the first downloaded file with the coordinates asked for, or a null
  pointer.  The comparison of the \<^verbatim>\<open>uint32\<close> member with the \<^verbatim>\<open>int32\<close> coordinate
  converts the latter.
\<close>

fun GetTile :: "FCachedElevationFile list \<Rightarrow> int \<times> int \<Rightarrow> uint32 \<Rightarrow> FCachedElevationFile option" where
  "GetTile [] XY LevelIndex = None"
| "GetTile (Tile # rest) XY LevelIndex =
     (if X Tile = word_of_int (fst XY) \<and> Y Tile = word_of_int (snd XY) \<and> Z Tile = LevelIndex
      then Some Tile else GetTile rest XY LevelIndex)"

text \<open>
  \<^verbatim>\<open>ElevationRange\<close>, the float \<^verbatim>\<open>ElevationMax - ElevationMin\<close>.  The two members
  hold the least and the greatest decoded elevation of the tiles, which lie between
  \<open>-32768\<close> and \<open>9000\<close> and whose difference is taken exactly, or, when no tile has a
  valid sample, still the initial \<open>FloatMax\<close> and \<open>- FloatMax\<close>: that difference is below
  every finite float (it is at most \<open>- (2^128 - 2^103)\<close>, from where the subtraction
  rounds to an infinity) and the range is \<open>-\<infinity>\<close>.
\<close>

definition ElevationRange :: "real \<Rightarrow> real \<Rightarrow> float32" where
  "ElevationRange emin emax =
     (if emax - emin \<le> - (2 ^ 128 - 2 ^ 103) then MinusInfinity else Finite (emax - emin))"

text \<open>
  The quantisation of a sampled elevation: \<^verbatim>\<open>ElevationScale\<close> is
  \<^verbatim>\<open>65535.0f / ElevationRange\<close>, the sample is scaled by
  \<^verbatim>\<open>(ElevationValue - ElevationMin) * ElevationScale\<close>, rounded and cast to
  \<^verbatim>\<open>uint16\<close>.
\<close>

definition ElevationScale :: "real \<Rightarrow> real \<Rightarrow> float32" where
  "ElevationScale emin emax = fdiv (Finite 65535) (ElevationRange emin emax)"

definition QuantizeElevation :: "real \<Rightarrow> real \<Rightarrow> float32 \<Rightarrow> error + uint16" where
  "QuantizeElevation emin emax ElevationValue =
     (let ScaledElevationValue = fmul (fsub ElevationValue (Finite emin)) (ElevationScale emin emax)
      in case RoundToInt ScaledElevationValue of
           Inl e \<Rightarrow> Inl e
         | Inr q \<Rightarrow> Inr (word_of_int q))"

text \<open>
  The body of the two loops of \<^verbatim>\<open>ReprojectData\<close> for the vertex \<open>(x, y)\<close>: the value
  written to the height map.  The tile pointer is dereferenced before the test of the
  pixel position, so a tile that is not found is \<open>Inl NullPointer\<close>.
\<close>

definition ReprojectVertex ::
  "FTiledMap \<Rightarrow> projection \<Rightarrow> tiling \<Rightarrow> FElevationModel \<Rightarrow> real \<Rightarrow> int \<Rightarrow> int \<Rightarrow> error + uint16" where
  "ReprojectVertex TiledMap ToEPSG3857 GetTileXY m QuadSize x y =
     (let LevelIndex = NumLevels TiledMap - 1
      in case ToEPSG3857 (real_of_int x * QuadSize, real_of_int y * QuadSize) of
           None \<Rightarrow> Inr 32768
         | Some (WebMercatorX, WebMercatorY) \<Rightarrow>
             (case GetTileXY WebMercatorX WebMercatorY LevelIndex of
                (TileXY, PixelXY) \<Rightarrow>
                  (case GetTile (FilesDownloaded m) TileXY LevelIndex of
                     None \<Rightarrow> Inl NullPointer
                   | Some Tile \<Rightarrow>
                       if fst PixelXY \<ge> 2 \<and> snd PixelXY \<ge> 2 \<and>
                          fst PixelXY < real_of_int (TileWidth TiledMap - 3) \<and>
                          snd PixelXY < real_of_int (TileHeight TiledMap - 3)
                       then (case SampleElevationLanczos (Elevation Tile)
                                    (word_of_int (TileWidth TiledMap))
                                    (word_of_int (TileHeight TiledMap)) PixelXY of
                               Inl e \<Rightarrow> Inl e
                             | Inr ElevationValue \<Rightarrow>
                                 QuantizeElevation (ModelElevationMin m) (ModelElevationMax m)
                                   ElevationValue)
                       else Inr 32768)))"

text \<open>One row of the height map: the vertices \<open>(x, y)\<close> of row \<open>y\<close>, for the \<open>x\<close> in order.\<close>

fun ReprojectRow ::
  "FTiledMap \<Rightarrow> projection \<Rightarrow> tiling \<Rightarrow> FElevationModel \<Rightarrow> real \<Rightarrow> int \<Rightarrow> int list
     \<Rightarrow> error + uint16 list" where
  "ReprojectRow TiledMap ToEPSG3857 GetTileXY m QuadSize y [] = Inr []"
| "ReprojectRow TiledMap ToEPSG3857 GetTileXY m QuadSize y (x # xs) =
     (case ReprojectVertex TiledMap ToEPSG3857 GetTileXY m QuadSize x y of
        Inl e \<Rightarrow> Inl e
      | Inr q \<Rightarrow>
          (case ReprojectRow TiledMap ToEPSG3857 GetTileXY m QuadSize y xs of
             Inl e \<Rightarrow> Inl e
           | Inr qs \<Rightarrow> Inr (q # qs)))"

text \<open>
  The outer loop over the rows \<open>ys\<close>.  \<open>UserCancel y\<close> is what
  \<^verbatim>\<open>GWarn->ReceivedUserCancel()\<close> answers behind row \<open>y\<close>; then the function returns
  false, with the rows written so far.
\<close>

fun ReprojectRows ::
  "FTiledMap \<Rightarrow> projection \<Rightarrow> tiling \<Rightarrow> FElevationModel \<Rightarrow> real \<Rightarrow> (int \<Rightarrow> bool) \<Rightarrow> int list
     \<Rightarrow> int list \<Rightarrow> uint16 list \<Rightarrow> error + (bool \<times> uint16 list)" where
  "ReprojectRows TiledMap ToEPSG3857 GetTileXY m QuadSize UserCancel xs [] out = Inr (True, out)"
| "ReprojectRows TiledMap ToEPSG3857 GetTileXY m QuadSize UserCancel xs (y # ys) out =
     (case ReprojectRow TiledMap ToEPSG3857 GetTileXY m QuadSize y xs of
        Inl e \<Rightarrow> Inl e
      | Inr row \<Rightarrow>
          if UserCancel y then Inr (False, out @ row)
          else ReprojectRows TiledMap ToEPSG3857 GetTileXY m QuadSize UserCancel xs ys (out @ row))"

definition DefaultLandscapeScaleXY :: real where
  "DefaultLandscapeScaleXY = 128"

definition DefaultLandscapeScaleZ :: real where
  "DefaultLandscapeScaleZ = 256"

definition OSMToCentimetersScaleFactor :: real where
  "OSMToCentimetersScaleFactor = 100"

text \<open>
  \<^verbatim>\<open>ReprojectData\<close>: the returned flag, the height map and the model with the scale
  of its transform set (only when the function returns true).
\<close>

definition ReprojectData ::
  "FTiledMap \<Rightarrow> projection \<Rightarrow> tiling \<Rightarrow> (int \<Rightarrow> bool) \<Rightarrow> int \<Rightarrow> real \<Rightarrow> FElevationModel
     \<Rightarrow> error + (bool \<times> uint16 list \<times> FElevationModel)" where
  "ReprojectData TiledMap ToEPSG3857 GetTileXY UserCancel NumVerticesForRadius QuadSize m =
     (let vs = [- NumVerticesForRadius .. NumVerticesForRadius - 1]
      in case ReprojectRows TiledMap ToEPSG3857 GetTileXY m QuadSize UserCancel vs vs [] of
           Inl e \<Rightarrow> Inl e
         | Inr (False, out) \<Rightarrow> Inr (False, out, m)
         | Inr (True, out) \<Rightarrow>
             (let LandscapeInternalScaleZ = 512 / 100;
                  ScaleXY = OSMToCentimetersScaleFactor * QuadSize / DefaultLandscapeScaleXY;
                  ScaleZ = fdiv (fdiv (ElevationRange (ModelElevationMin m) (ModelElevationMax m))
                                   (Finite DefaultLandscapeScaleZ))
                             (Finite LandscapeInternalScaleZ)
              in Inr (True, out, m\<lparr>Scale3D := (ScaleXY, ScaleXY, ScaleZ)\<rparr>)))"

subsection \<open>\<^verbatim>\<open>CreateLandscape\<close>: the blend weights\<close>

text \<open>
  A way of the street map (\<^verbatim>\<open>FStreetMapMiscWay\<close>, with the way types the layer
  mapping names) and an import layer (\<^verbatim>\<open>FLandscapeImportLayerInfo\<close>: its name and its
  weight data).  Names (\<^verbatim>\<open>FName\<close>) and categories (\<^verbatim>\<open>FString\<close>) are strings of
  ASCII characters.
\<close>

datatype EStreetMapMiscWayType = Unknown | LandUse | Leisure | Natural

record FStreetMapMiscWay =
  Points :: "(real \<times> real) list"
  BoundsMin :: "real \<times> real"
  BoundsMax :: "real \<times> real"
  WayType :: EStreetMapMiscWayType
  Category :: string
  bIsClosed :: bool

record FLandscapeImportLayerInfo =
  LayerName :: string
  LayerData :: "uint8 list"

text \<open>
  The engine compares strings without regard to case: \<^verbatim>\<open>operator==\<close> of \<^verbatim>\<open>FString\<close>
  is \<^verbatim>\<open>Stricmp(...) == 0\<close>, and two \<^verbatim>\<open>FName\<close> are equal when their texts are equal
  up to case.  \<open>ToLower\<close> maps the letters \<open>A\<close> to \<open>Z\<close> (codes 65 to 90) to \<open>a\<close> to
  \<open>z\<close> by setting the bit of value 32, and leaves every other character.
\<close>

definition ToLower :: "char \<Rightarrow> char" where
  "ToLower c =
     (case c of Char b0 b1 b2 b3 b4 b5 b6 b7 \<Rightarrow>
        if 65 \<le> (of_char c :: nat) \<and> (of_char c :: nat) \<le> 90
        then Char b0 b1 b2 b3 b4 True b6 b7 else c)"

definition FStringEqual :: "string \<Rightarrow> string \<Rightarrow> bool" where
  "FStringEqual LHS RHS = (map ToLower LHS = map ToLower RHS)"

definition FNameEqual :: "string \<Rightarrow> string \<Rightarrow> bool" where
  "FNameEqual LHS RHS = (map ToLower LHS = map ToLower RHS)"

text \<open>\<^verbatim>\<open>operator==\<close> of \<^verbatim>\<open>FWayMatch\<close>.\<close>

definition FWayMatchEqual ::
  "EStreetMapMiscWayType \<times> string \<Rightarrow> EStreetMapMiscWayType \<times> string \<Rightarrow> bool" where
  "FWayMatchEqual LHS RHS = (fst LHS = fst RHS \<and> FStringEqual (snd LHS) (snd RHS))"

text \<open>
  The static map \<^verbatim>\<open>LayerWayMapping\<close> with its two keys, as \<^verbatim>\<open>Find\<close> reads it, and
  \<^verbatim>\<open>GetPolygonWaysForLayer\<close>: the closed ways whose type and category the array found
  for the layer \<^verbatim>\<open>Contains\<close>.
\<close>

definition LayerWayMapping :: "string \<Rightarrow> (EStreetMapMiscWayType \<times> string) list option" where
  "LayerWayMapping Name =
     (if FNameEqual ''Grass'' Name then
        Some [(LandUse, ''grass''), (LandUse, ''village_green''), (LandUse, ''meadow''),
              (LandUse, ''farmland''), (Leisure, ''park'')]
      else if FNameEqual ''Wood'' Name then
        Some [(LandUse, ''forest''), (Natural, ''wood''), (Natural, ''nature_reserve'')]
      else None)"

definition GetPolygonWaysForLayer :: "string \<Rightarrow> FStreetMapMiscWay list \<Rightarrow> FStreetMapMiscWay list" where
  "GetPolygonWaysForLayer Name MiscWays =
     (case LayerWayMapping Name of
        None \<Rightarrow> []
      | Some WayMatches \<Rightarrow>
          filter (\<lambda>MiscWay. bIsClosed MiscWay \<and>
                    list_ex (\<lambda>WayMatch. FWayMatchEqual WayMatch (WayType MiscWay, Category MiscWay))
                      WayMatches)
            MiscWays)"

definition SMALL_NUMBER :: real where
  "SMALL_NUMBER = 1 / 10 ^ 8"

text \<open>
  The loop over the previous layers: the weight of each at \<open>PixelIndex\<close> is scaled by
  \<open>AvailableBlendWeight\<close>, rounded and stored as \<^verbatim>\<open>uint8\<close>.
\<close>

fun RampDown ::
  "nat \<Rightarrow> real \<Rightarrow> FLandscapeImportLayerInfo list \<Rightarrow> error + FLandscapeImportLayerInfo list" where
  "RampDown PixelIndex AvailableBlendWeight [] = Inr []"
| "RampDown PixelIndex AvailableBlendWeight (PreviousImportLayer # rest) =
     (if PixelIndex < length (LayerData PreviousImportLayer) then
        (case RoundToInt (Finite (AvailableBlendWeight
                 * real (unat (LayerData PreviousImportLayer ! PixelIndex)))) of
           Inl e \<Rightarrow> Inl e
         | Inr q \<Rightarrow>
             (case RampDown PixelIndex AvailableBlendWeight rest of
                Inl e \<Rightarrow> Inl e
              | Inr rest' \<Rightarrow>
                  Inr (PreviousImportLayer
                         \<lparr>LayerData := (LayerData PreviousImportLayer)[PixelIndex := word_of_int q]\<rparr>
                       # rest')))
      else Inl OutOfBounds)"

text \<open>
  The body of \<^verbatim>\<open>if (IsInside || SquareDistance < HalfBlendGaugeSqr)\<close> for the weight
  \<open>Lerp\<close> at \<open>PixelIndex\<close>: the state is the array \<^verbatim>\<open>ImportLayers\<close> of the layers
  before this one and the weight data of this one.
\<close>

definition PaintPixel ::
  "int \<Rightarrow> float32 \<Rightarrow> FLandscapeImportLayerInfo list \<times> uint8 list
     \<Rightarrow> error + (FLandscapeImportLayerInfo list \<times> uint8 list)" where
  "PaintPixel PixelIndex Lerp st =
     (case st of (ImportLayers, WeightData) \<Rightarrow>
        if 0 \<le> PixelIndex \<and> nat PixelIndex < length WeightData then
          (case RoundToInt (fmul (Finite 255) Lerp) of
             Inl e \<Rightarrow> Inl e
           | Inr q \<Rightarrow>
               (let WeightData' = WeightData[nat PixelIndex := word_of_int (min 255 q)];
                    AvailableBlendWeight = (255 - real (unat (WeightData' ! nat PixelIndex))) / 255
                in case RampDown (nat PixelIndex) AvailableBlendWeight ImportLayers of
                     Inl e \<Rightarrow> Inl e
                   | Inr ImportLayers' \<Rightarrow> Inr (ImportLayers', WeightData')))
        else Inl OutOfBounds)"

text \<open>
  \<open>ComputeSquareDistance\<close> is the function of \<^verbatim>\<open>FPolygon2DView\<close>: for the points of
  a polygon and a location, the square distance and the flag \<^verbatim>\<open>IsInside\<close>.  The body
  of the two loops over \<open>Y\<close> and \<open>X\<close> for the vertex \<open>xy\<close>; the square root of a
  negative number is not a number.
\<close>

type_synonym distance = "(real \<times> real) list \<Rightarrow> real \<times> real \<Rightarrow> real \<times> bool"

definition PaintVertex ::
  "distance \<Rightarrow> int \<Rightarrow> real \<Rightarrow> real \<Rightarrow> FStreetMapMiscWay \<Rightarrow> int \<times> int
     \<Rightarrow> FLandscapeImportLayerInfo list \<times> uint8 list
     \<Rightarrow> error + (FLandscapeImportLayerInfo list \<times> uint8 list)" where
  "PaintVertex ComputeSquareDistance NumVerticesForRadius QuadSize BlendGaugeSetting Polygon xy st =
     (let BlendGauge = BlendGaugeSetting * OSMToCentimetersScaleFactor;
          HalfBlendGauge = BlendGauge * 0.5;
          HalfBlendGaugeSqr = HalfBlendGauge * HalfBlendGauge;
          Size = NumVerticesForRadius * 2;
          VertexLocation = (real_of_int (fst xy) * QuadSize * OSMToCentimetersScaleFactor,
                            real_of_int (snd xy) * QuadSize * OSMToCentimetersScaleFactor)
      in case ComputeSquareDistance (Points Polygon) VertexLocation of
           (SquareDistance, IsInside) \<Rightarrow>
             if IsInside \<or> SquareDistance < HalfBlendGaugeSqr then
               (let Lerp = (if HalfBlendGauge > SMALL_NUMBER
                            then (if SquareDistance < 0 then NaN
                                  else Finite ((sqrt SquareDistance / HalfBlendGauge)
                                                 * (if IsInside then 0.5 else - 0.5) + 0.5))
                            else Finite 1);
                    PixelIndex = (snd xy + NumVerticesForRadius) * Size + fst xy
                                   + NumVerticesForRadius
                in PaintPixel PixelIndex Lerp st)
             else Inr st)"

fun PaintVertices ::
  "distance \<Rightarrow> int \<Rightarrow> real \<Rightarrow> real \<Rightarrow> FStreetMapMiscWay \<Rightarrow> (int \<times> int) list
     \<Rightarrow> FLandscapeImportLayerInfo list \<times> uint8 list
     \<Rightarrow> error + (FLandscapeImportLayerInfo list \<times> uint8 list)" where
  "PaintVertices ComputeSquareDistance NumVerticesForRadius QuadSize BlendGaugeSetting Polygon [] st =
     Inr st"
| "PaintVertices ComputeSquareDistance NumVerticesForRadius QuadSize BlendGaugeSetting Polygon
       (xy # rest) st =
     (case PaintVertex ComputeSquareDistance NumVerticesForRadius QuadSize BlendGaugeSetting
             Polygon xy st of
        Inl e \<Rightarrow> Inl e
      | Inr st' \<Rightarrow>
          PaintVertices ComputeSquareDistance NumVerticesForRadius QuadSize BlendGaugeSetting
            Polygon rest st')"

text \<open>
  The body of the loop over the polygons of a layer.  \<open>TransformLocal\<close> is
  \<^verbatim>\<open>TransformLocal.TransformPosition\<close> on the two horizontal coordinates.
  \<open>PolygonVertices\<close> are the vertices \<open>(X, Y)\<close> the two loops visit, in their order: those
  of the bounding box of the polygon, extended by half the blend gauge and cut to the
  grid.
\<close>

definition PolygonVertices ::
  "(real \<times> real \<Rightarrow> real \<times> real) \<Rightarrow> int \<Rightarrow> real \<Rightarrow> FStreetMapMiscWay \<Rightarrow> (int \<times> int) list" where
  "PolygonVertices TransformLocal NumVerticesForRadius BlendGaugeSetting Polygon =
     (let BlendGauge = BlendGaugeSetting * OSMToCentimetersScaleFactor;
          HalfBlendGauge = BlendGauge * 0.5;
          Min = TransformLocal (BoundsMin Polygon);
          Max = TransformLocal (BoundsMax Polygon);
          MinX = max (- NumVerticesForRadius) \<lfloor>fst Min - HalfBlendGauge\<rfloor>;
          MinY = max (- NumVerticesForRadius) \<lfloor>snd Min - HalfBlendGauge\<rfloor>;
          MaxX = min (NumVerticesForRadius - 1) \<lceil>fst Max + HalfBlendGauge\<rceil>;
          MaxY = min (NumVerticesForRadius - 1) \<lceil>snd Max + HalfBlendGauge\<rceil>
      in concat (map (\<lambda>y. map (\<lambda>x. (x, y)) [MinX..MaxX]) [MinY..MaxY]))"

definition RasterizePolygon ::
  "(real \<times> real \<Rightarrow> real \<times> real) \<Rightarrow> distance \<Rightarrow> int \<Rightarrow> real \<Rightarrow> real \<Rightarrow> FStreetMapMiscWay
     \<Rightarrow> FLandscapeImportLayerInfo list \<times> uint8 list
     \<Rightarrow> error + (FLandscapeImportLayerInfo list \<times> uint8 list)" where
  "RasterizePolygon TransformLocal ComputeSquareDistance NumVerticesForRadius QuadSize
       BlendGaugeSetting Polygon st =
     PaintVertices ComputeSquareDistance NumVerticesForRadius QuadSize BlendGaugeSetting Polygon
       (PolygonVertices TransformLocal NumVerticesForRadius BlendGaugeSetting Polygon) st"

text \<open>
  The loop over the polygons of the layer \<open>Name\<close>; \<open>k\<close> polygons of it are done.
  \<open>UserCancel Name k\<close> is the answer of \<^verbatim>\<open>GWarn->ReceivedUserCancel()\<close> behind the
  polygon at position \<open>k\<close>; the result \<open>None\<close> is the return of a null pointer.
\<close>

fun RasterizePolygons ::
  "(real \<times> real \<Rightarrow> real \<times> real) \<Rightarrow> distance \<Rightarrow> (string \<Rightarrow> nat \<Rightarrow> bool) \<Rightarrow> int \<Rightarrow> real \<Rightarrow> real
     \<Rightarrow> string \<Rightarrow> nat \<Rightarrow> FStreetMapMiscWay list
     \<Rightarrow> FLandscapeImportLayerInfo list \<times> uint8 list
     \<Rightarrow> error + (FLandscapeImportLayerInfo list \<times> uint8 list) option" where
  "RasterizePolygons TransformLocal ComputeSquareDistance UserCancel NumVerticesForRadius QuadSize
       BlendGaugeSetting Name k [] st = Inr (Some st)"
| "RasterizePolygons TransformLocal ComputeSquareDistance UserCancel NumVerticesForRadius QuadSize
       BlendGaugeSetting Name k (Polygon # rest) st =
     (case RasterizePolygon TransformLocal ComputeSquareDistance NumVerticesForRadius QuadSize
             BlendGaugeSetting Polygon st of
        Inl e \<Rightarrow> Inl e
      | Inr st' \<Rightarrow>
          if UserCancel Name k then Inr None
          else RasterizePolygons TransformLocal ComputeSquareDistance UserCancel
                 NumVerticesForRadius QuadSize BlendGaugeSetting Name (Suc k) rest st')"

text \<open>
  The loop over \<^verbatim>\<open>BuildSettings.Layers\<close> (the names of the layers), with the array
  \<^verbatim>\<open>ImportLayers\<close> built so far.  The write \<^verbatim>\<open>*WeightData = 1\<close> into an array
  without elements is \<open>Inl OutOfBounds\<close>.
\<close>

fun FillLayers ::
  "(real \<times> real \<Rightarrow> real \<times> real) \<Rightarrow> distance \<Rightarrow> (string \<Rightarrow> nat \<Rightarrow> bool) \<Rightarrow> int \<Rightarrow> real \<Rightarrow> real
     \<Rightarrow> FStreetMapMiscWay list \<Rightarrow> string list \<Rightarrow> FLandscapeImportLayerInfo list
     \<Rightarrow> error + FLandscapeImportLayerInfo list option" where
  "FillLayers TransformLocal ComputeSquareDistance UserCancel NumVerticesForRadius QuadSize
       BlendGaugeSetting MiscWays [] ImportLayers = Inr (Some ImportLayers)"
| "FillLayers TransformLocal ComputeSquareDistance UserCancel NumVerticesForRadius QuadSize
       BlendGaugeSetting MiscWays (Name # rest) ImportLayers =
     (let Size = NumVerticesForRadius * 2
      in if ImportLayers = [] then
           FillLayers TransformLocal ComputeSquareDistance UserCancel NumVerticesForRadius QuadSize
             BlendGaugeSetting MiscWays rest
             (ImportLayers @ [\<lparr>LayerName = Name, LayerData = replicate (nat (Size * Size)) 255\<rparr>])
         else
           (let Polygons = GetPolygonWaysForLayer Name MiscWays;
                WeightData = replicate (nat (Size * Size)) 0
            in if Polygons \<noteq> [] then
                 (case RasterizePolygons TransformLocal ComputeSquareDistance UserCancel
                         NumVerticesForRadius QuadSize BlendGaugeSetting Name 0 Polygons
                         (ImportLayers, WeightData) of
                    Inl e \<Rightarrow> Inl e
                  | Inr None \<Rightarrow> Inr None
                  | Inr (Some (ImportLayers', WeightData')) \<Rightarrow>
                      FillLayers TransformLocal ComputeSquareDistance UserCancel
                        NumVerticesForRadius QuadSize BlendGaugeSetting MiscWays rest
                        (ImportLayers' @ [\<lparr>LayerName = Name, LayerData = WeightData'\<rparr>]))
               else if WeightData = [] then Inl OutOfBounds
               else
                 FillLayers TransformLocal ComputeSquareDistance UserCancel NumVerticesForRadius
                   QuadSize BlendGaugeSetting MiscWays rest
                   (ImportLayers @ [\<lparr>LayerName = Name, LayerData = WeightData[0 := 1]\<rparr>])))"

text \<open>
  \<^verbatim>\<open>CreateLandscape\<close>, up to the import layers it hands to \<^verbatim>\<open>ALandscape::Import\<close>
  (\<open>None\<close> for the null pointer returned on a user cancel).
\<close>

definition CreateLandscape ::
  "(real \<times> real \<Rightarrow> real \<times> real) \<Rightarrow> distance \<Rightarrow> (string \<Rightarrow> nat \<Rightarrow> bool) \<Rightarrow> int \<Rightarrow> real \<Rightarrow> real
     \<Rightarrow> FStreetMapMiscWay list \<Rightarrow> string list \<Rightarrow> error + FLandscapeImportLayerInfo list option" where
  "CreateLandscape TransformLocal ComputeSquareDistance UserCancel NumVerticesForRadius QuadSize
       BlendGaugeSetting MiscWays Layers =
     FillLayers TransformLocal ComputeSquareDistance UserCancel NumVerticesForRadius QuadSize
       BlendGaugeSetting MiscWays Layers []"

subsection \<open>\<^verbatim>\<open>BuildLandscape\<close>\<close>

text \<open>
  The three steps in sequence on a new elevation model.  The result is \<open>None\<close> of the
  outer option when the download loop has not ended within \<open>fuel\<close> iterations;
  otherwise the null pointer (\<open>None\<close>) or the height map and the import layers handed
  to the landscape.  \<open>TransformLocal\<close> is the inverse of the vertex to world transform
  for a given scale of the model's transform.
\<close>

definition BuildLandscape ::
  "nat \<Rightarrow> codec \<Rightarrow> FTiledMap \<Rightarrow> projection \<Rightarrow> tiling \<Rightarrow> World \<Rightarrow> (int \<Rightarrow> bool)
     \<Rightarrow> (real \<times> real \<times> float32 \<Rightarrow> real \<times> real \<Rightarrow> real \<times> real) \<Rightarrow> distance \<Rightarrow> (string \<Rightarrow> nat \<Rightarrow> bool)
     \<Rightarrow> int \<Rightarrow> real \<Rightarrow> real \<Rightarrow> FStreetMapMiscWay list \<Rightarrow> string list \<Rightarrow> int \<Rightarrow> int
     \<Rightarrow> (error + (uint16 list \<times> FLandscapeImportLayerInfo list) option) option" where
  "BuildLandscape fuel SetCompressed TiledMap ToEPSG3857 GetTileXY world ReprojectCancel
       TransformLocal ComputeSquareDistance CreateCancel NumVerticesForRadius QuadSize
       BlendGaugeSetting MiscWays Layers now n =
     (case LoadElevationData fuel SetCompressed TiledMap ToEPSG3857 GetTileXY world
             NumVerticesForRadius QuadSize now NewElevationModel n of
        None \<Rightarrow> None
      | Some (Inl e) \<Rightarrow> Some (Inl e)
      | Some (Inr (False, s)) \<Rightarrow> Some (Inr None)
      | Some (Inr (True, s)) \<Rightarrow>
          (case ReprojectData TiledMap ToEPSG3857 GetTileXY ReprojectCancel NumVerticesForRadius
                  QuadSize (FElevationModel.truncate s) of
             Inl e \<Rightarrow> Some (Inl e)
           | Inr (False, ElevationData, m) \<Rightarrow> Some (Inr None)
           | Inr (True, ElevationData, m) \<Rightarrow>
               (case CreateLandscape (TransformLocal (Scale3D m)) ComputeSquareDistance
                       CreateCancel NumVerticesForRadius QuadSize BlendGaugeSetting MiscWays
                       Layers of
                  Inl e \<Rightarrow> Some (Inl e)
                | Inr None \<Rightarrow> Some (Inr None)
                | Inr (Some ImportLayers) \<Rightarrow> Some (Inr (Some (ElevationData, ImportLayers))))))"

subsection \<open>Notions used to state and to prove the properties\<close>

text \<open>
  The call of \<^verbatim>\<open>Tick\<close> and of \<^verbatim>\<open>CancelRequest\<close> on a file, as the run records it,
  and two file objects for the same tile.
\<close>

definition TickCallOf :: "FCachedElevationFile \<Rightarrow> call" where
  "TickCallOf f = TickCall (X f) (Y f)"

definition CancelCallOf :: "FCachedElevationFile \<Rightarrow> call" where
  "CancelCallOf f = CancelCall (X f) (Y f)"

definition SameFile :: "FCachedElevationFile \<Rightarrow> FCachedElevationFile \<Rightarrow> bool" where
  "SameFile f g = (X f = X g \<and> Y f = Y g \<and> Z f = Z g)"

text \<open>
  Consecutive calls of \<^verbatim>\<open>Tick\<close> on the files of a list, in the order of the list: the
  first call is the \<open>t\<close>-th of the job and finds the static counter at \<open>n\<close>.  The
  result is the counter behind the last call and the file objects as their calls left
  them.
\<close>

fun TickAll ::
  "codec \<Rightarrow> FTiledMap \<Rightarrow> World \<Rightarrow> nat \<Rightarrow> int \<Rightarrow> FCachedElevationFile list
     \<Rightarrow> error + (int \<times> FCachedElevationFile list)" where
  "TickAll SetCompressed TiledMap world t n [] = Inr (n, [])"
| "TickAll SetCompressed TiledMap world t n (f # rest) =
     (case Tick SetCompressed TiledMap (TickEnvAt world t) (n, f) of
        Inl e \<Rightarrow> Inl e
      | Inr (n', g) \<Rightarrow>
          (case TickAll SetCompressed TiledMap world (Suc t) n' rest of
             Inl e \<Rightarrow> Inl e
           | Inr (n'', gs) \<Rightarrow> Inr (n'', g # gs)))"

text \<open>
  The sum over a list of layers of the weights at one pixel.  \<open>TaggedSum\<close> is the sum
  over the layers that a list of flags, one for each layer, selects, and
  \<open>TaggedNonzero\<close> the number of the selected layers whose weight at the pixel is not 0.
\<close>

fun WeightSum :: "nat \<Rightarrow> FLandscapeImportLayerInfo list \<Rightarrow> nat" where
  "WeightSum PixelIndex [] = 0"
| "WeightSum PixelIndex (Layer # rest) =
     unat (LayerData Layer ! PixelIndex) + WeightSum PixelIndex rest"

fun TaggedSum :: "nat \<Rightarrow> bool list \<Rightarrow> FLandscapeImportLayerInfo list \<Rightarrow> nat" where
  "TaggedSum PixelIndex (t # ts) (Layer # rest) =
     (if t then unat (LayerData Layer ! PixelIndex) else 0) + TaggedSum PixelIndex ts rest"
| "TaggedSum PixelIndex ts Layers = 0"

fun TaggedNonzero :: "nat \<Rightarrow> bool list \<Rightarrow> FLandscapeImportLayerInfo list \<Rightarrow> nat" where
  "TaggedNonzero PixelIndex (t # ts) (Layer # rest) =
     (if t \<and> LayerData Layer ! PixelIndex \<noteq> 0 then 1 else 0) + TaggedNonzero PixelIndex ts rest"
| "TaggedNonzero PixelIndex ts Layers = 0"

text \<open>
  The vertex \<open>xy\<close> of the loops over a polygon paints the pixel \<open>c\<close>: the condition
  \<^verbatim>\<open>IsInside || SquareDistance < HalfBlendGaugeSqr\<close> holds for it and \<open>c\<close> is its
  \<^verbatim>\<open>PixelIndex\<close>.  \<open>PolygonPaintCount\<close> is the number of such vertices among those
  the loops over the polygon visit, and \<open>PaintCount\<close> the number of times the layer
  \<open>Name\<close> paints the pixel \<open>c\<close>: the sum of these numbers over the polygons of the layer.
  \<open>Painters\<close> is the number of the layers \<open>Names\<close> that paint the pixel, and
  \<open>Markers\<close> the number of those without a polygon.
\<close>

definition VertexPaints ::
  "distance \<Rightarrow> int \<Rightarrow> real \<Rightarrow> real \<Rightarrow> FStreetMapMiscWay \<Rightarrow> nat \<Rightarrow> int \<times> int \<Rightarrow> bool" where
  "VertexPaints ComputeSquareDistance NumVerticesForRadius QuadSize BlendGaugeSetting Polygon c xy =
     (let BlendGauge = BlendGaugeSetting * OSMToCentimetersScaleFactor;
          HalfBlendGauge = BlendGauge * 0.5;
          HalfBlendGaugeSqr = HalfBlendGauge * HalfBlendGauge;
          Size = NumVerticesForRadius * 2;
          VertexLocation = (real_of_int (fst xy) * QuadSize * OSMToCentimetersScaleFactor,
                            real_of_int (snd xy) * QuadSize * OSMToCentimetersScaleFactor)
      in case ComputeSquareDistance (Points Polygon) VertexLocation of
           (SquareDistance, IsInside) \<Rightarrow>
             (IsInside \<or> SquareDistance < HalfBlendGaugeSqr) \<and>
             (snd xy + NumVerticesForRadius) * Size + fst xy + NumVerticesForRadius = int c)"

definition PolygonPaintCount ::
  "(real \<times> real \<Rightarrow> real \<times> real) \<Rightarrow> distance \<Rightarrow> int \<Rightarrow> real \<Rightarrow> real \<Rightarrow> nat
     \<Rightarrow> FStreetMapMiscWay \<Rightarrow> nat" where
  "PolygonPaintCount TransformLocal ComputeSquareDistance NumVerticesForRadius QuadSize
       BlendGaugeSetting c Polygon =
     length (filter (VertexPaints ComputeSquareDistance NumVerticesForRadius QuadSize
                       BlendGaugeSetting Polygon c)
               (PolygonVertices TransformLocal NumVerticesForRadius BlendGaugeSetting Polygon))"

definition PaintCount ::
  "(real \<times> real \<Rightarrow> real \<times> real) \<Rightarrow> distance \<Rightarrow> int \<Rightarrow> real \<Rightarrow> real \<Rightarrow> FStreetMapMiscWay list
     \<Rightarrow> nat \<Rightarrow> string \<Rightarrow> nat" where
  "PaintCount TransformLocal ComputeSquareDistance NumVerticesForRadius QuadSize BlendGaugeSetting
       MiscWays c Name =
     sum_list (map (PolygonPaintCount TransformLocal ComputeSquareDistance NumVerticesForRadius
                      QuadSize BlendGaugeSetting c)
                 (GetPolygonWaysForLayer Name MiscWays))"

definition Painters ::
  "(real \<times> real \<Rightarrow> real \<times> real) \<Rightarrow> distance \<Rightarrow> int \<Rightarrow> real \<Rightarrow> real \<Rightarrow> FStreetMapMiscWay list
     \<Rightarrow> nat \<Rightarrow> string list \<Rightarrow> nat" where
  "Painters TransformLocal ComputeSquareDistance NumVerticesForRadius QuadSize BlendGaugeSetting
       MiscWays c Names =
     length (filter (\<lambda>Name. 0 < PaintCount TransformLocal ComputeSquareDistance
                                    NumVerticesForRadius QuadSize BlendGaugeSetting MiscWays c Name)
               Names)"

definition Markers :: "FStreetMapMiscWay list \<Rightarrow> string list \<Rightarrow> nat" where
  "Markers MiscWays Names =
     length (filter (\<lambda>Name. GetPolygonWaysForLayer Name MiscWays = []) Names)"

text \<open>
  What a part of the rasterisation of a layer does to the pixel \<open>c\<close>, between a state
  \<open>st\<close> (the layers before and the weight data of the layer) and a later state \<open>st'\<close>.
  Either the pixel is as it was in every layer, or it has been painted once: then, for
  the new weight \<open>w\<close> of the layer and any selection of the layers before, the weights
  of the selected layers, which summed to \<open>S\<close>, sum to \<open>(255 - w) / 255 * S\<close> up to
  \<open>127 / 255\<close> for each of them that was not 0; no weight has grown and none that was 0
  has changed.
\<close>

definition Untouched ::
  "nat \<Rightarrow> FLandscapeImportLayerInfo list \<times> uint8 list
     \<Rightarrow> FLandscapeImportLayerInfo list \<times> uint8 list \<Rightarrow> bool" where
  "Untouched c st st' =
     (length (fst st') = length (fst st) \<and> snd st' ! c = snd st ! c \<and>
      (\<forall>ts. TaggedSum c ts (fst st') = TaggedSum c ts (fst st) \<and>
            TaggedNonzero c ts (fst st') = TaggedNonzero c ts (fst st)))"

definition Repainted ::
  "nat \<Rightarrow> FLandscapeImportLayerInfo list \<times> uint8 list
     \<Rightarrow> FLandscapeImportLayerInfo list \<times> uint8 list \<Rightarrow> bool" where
  "Repainted c st st' =
     (length (fst st') = length (fst st) \<and>
      (\<forall>ts. \<bar>255 * int (TaggedSum c ts (fst st'))
                - (255 - int (unat (snd st' ! c))) * int (TaggedSum c ts (fst st))\<bar>
              \<le> 127 * int (TaggedNonzero c ts (fst st)) \<and>
            TaggedNonzero c ts (fst st') \<le> TaggedNonzero c ts (fst st) \<and>
            TaggedSum c ts (fst st') \<le> TaggedSum c ts (fst st)))"

subsection \<open>Example inputs\<close>

text \<open>
  A tile source with two levels and tiles of one pixel, a codec that decodes every file
  to the pixel \<open>(128, 0, 0, 255)\<close>, a projection that is the identity and a tiling
  that maps every point to the tile \<open>(0, 0)\<close>: the job then asks for the four tiles of
  level 1.  In \<open>ExampleWorld\<close> the first call of \<^verbatim>\<open>Tick\<close> finds the tile in the cache
  and every later one finds no cache file and cannot start its request.
\<close>

definition ExamplePng :: ImageWrapper where
  "ExamplePng = \<lparr> GetBitDepth = 8, GetFormat = RGBA, GetWidth = 1, GetHeight = 1,
                   GetRaw = Some [128, 0, 0, 255] \<rparr>"

definition ExampleCodec :: codec where
  "ExampleCodec = (\<lambda>RawData. Some ExamplePng)"

definition ExampleMap :: FTiledMap where
  "ExampleMap = \<lparr> TileWidth = 1, TileHeight = 1, NumLevels = 2 \<rparr>"

definition ExampleTiling :: tiling where
  "ExampleTiling = (\<lambda>wx wy LevelIndex. ((0, 0), (0, 0)))"

definition EnvCacheHit :: TickEnv where
  "EnvCacheHit = \<lparr> LoadFileToArray = Some [], UtcNowInitialize = 0, ProcessRequest = True,
                    UtcNowTick = 0, GetStatus = HttpProcessing, GetResponse = None \<rparr>"

definition EnvNoRequest :: TickEnv where
  "EnvNoRequest = \<lparr> LoadFileToArray = None, UtcNowInitialize = 0, ProcessRequest = False,
                     UtcNowTick = 0, GetStatus = HttpProcessing, GetResponse = None \<rparr>"

definition ExampleWorld :: World where
  "ExampleWorld = \<lparr> TickEnvAt = (\<lambda>n. if n = 0 then EnvCacheHit else EnvNoRequest),
                     ReceivedUserCancel = (\<lambda>n. False) \<rparr>"

definition ExampleFiles :: "FCachedElevationFile list" where
  "ExampleFiles = [NewCachedElevationFile 0 0 0 1, NewCachedElevationFile 0 1 0 1,
                   NewCachedElevationFile 0 0 1 1, NewCachedElevationFile 0 1 1 1]"

definition ExampleDecoded :: FCachedElevationFile where
  "ExampleDecoded = (NewCachedElevationFile 0 0 0 1)
     \<lparr> WasInitialized := True, WasDownloadSuccessful := True, Elevation := [0],
       ElevationMin := 0, ElevationMax := 0 \<rparr>"

text \<open>The state of the example job after its first and after its second iteration.\<close>

definition ExampleState1 :: DownloadState where
  "ExampleState1 =
     \<lparr> FilesDownloaded = [ExampleDecoded], ModelElevationMin = 0, ModelElevationMax = 0,
       Scale3D = (1, 1, Finite 1), NumPendingDownloads = 0,
       FilesToDownload = [NewCachedElevationFile 0 1 0 1, NewCachedElevationFile 0 0 1 1,
                          NewCachedElevationFile 0 1 1 1],
       Progress = 1 / 4, NumTicks = 1, NumRounds = 1, Calls = [TickCall 0 0] \<rparr>"

definition ExampleState2 :: DownloadState where
  "ExampleState2 =
     \<lparr> FilesDownloaded = [ExampleDecoded], ModelElevationMin = 0, ModelElevationMax = 0,
       Scale3D = (1, 1, Finite 1), NumPendingDownloads = 0, FilesToDownload = [],
       Progress = 1 / 4, NumTicks = 2, NumRounds = 2,
       Calls = [TickCall 0 0, TickCall 1 0, CancelCall 0 1, CancelCall 1 1] \<rparr>"

text \<open>
  A tile source with one level and tiles of 6 by 6 pixels, and a model that holds its one
  tile, decoded from pixels that are all \<open>(128, 0, 0)\<close>: the elevation is 0 everywhere
  and the range of the model is degenerate.  \<open>FlatTiling\<close> maps every point to the pixel
  \<open>(2, 2)\<close> of that tile (inside the window that is sampled), \<open>EdgeTiling\<close> to the
  pixel \<open>(1, 1)\<close> (outside of it); \<open>EastOnly\<close> is a projection that fails for negative
  \<open>x\<close>.
\<close>

definition FlatMap :: FTiledMap where
  "FlatMap = \<lparr> TileWidth = 6, TileHeight = 6, NumLevels = 1 \<rparr>"

definition FlatTile :: FCachedElevationFile where
  "FlatTile = (NewCachedElevationFile 0 0 0 0)
     \<lparr> WasInitialized := True, WasDownloadSuccessful := True, Elevation := replicate 36 0,
       ElevationMin := 0, ElevationMax := 0 \<rparr>"

definition FlatModel :: FElevationModel where
  "FlatModel = \<lparr> FilesDownloaded = [FlatTile], ModelElevationMin = 0, ModelElevationMax = 0,
                  Scale3D = (1, 1, Finite 1) \<rparr>"

text \<open>
  The same tile as the tile source delivers it: a PNG of 6 by 6 pixels \<open>(128, 0, 0, 255)\<close>,
  found in the cache by the first call of \<^verbatim>\<open>Tick\<close>; \<open>FlatState\<close> is the state in which
  the download loop of that job ends.
\<close>

definition FlatPng :: ImageWrapper where
  "FlatPng = \<lparr> GetBitDepth = 8, GetFormat = RGBA, GetWidth = 6, GetHeight = 6,
                GetRaw = Some (concat (replicate 36 [128, 0, 0, 255])) \<rparr>"

definition FlatCodec :: codec where
  "FlatCodec = (\<lambda>RawData. Some FlatPng)"

definition FlatWorld :: World where
  "FlatWorld = \<lparr> TickEnvAt = (\<lambda>n. EnvCacheHit), ReceivedUserCancel = (\<lambda>n. False) \<rparr>"

definition FlatState :: DownloadState where
  "FlatState =
     \<lparr> FilesDownloaded = [FlatTile], ModelElevationMin = 0, ModelElevationMax = 0,
       Scale3D = (1, 1, Finite 1), NumPendingDownloads = 0, FilesToDownload = [],
       Progress = 1, NumTicks = 1, NumRounds = 1, Calls = [TickCall 0 0] \<rparr>"

definition FlatTiling :: tiling where
  "FlatTiling = (\<lambda>wx wy LevelIndex. ((0, 0), (2, 2)))"

definition EdgeTiling :: tiling where
  "EdgeTiling = (\<lambda>wx wy LevelIndex. ((0, 0), (1, 1)))"

definition EastOnly :: projection where
  "EastOnly = (\<lambda>p. if fst p < 0 then None else Some p)"

text \<open>
  A street map with one closed way of land use \<open>Grass\<close> whose bounding box is the point
  of the vertex \<open>(0, 0)\<close>, and a distance function that has this point inside the
  polygon and every other location outside, at square distance 1.  With a grid of
  radius 1, quad size 1 and blend gauge \<open>1/50\<close> (half of it is 1 in the units of the
  map) the layer \<open>grass\<close> paints the pixel 3, the one of the vertex \<open>(0, 0)\<close>, with
  \<^verbatim>\<open>Lerp\<close> \<open>0.5\<close>, and no other pixel; the layer \<open>Rock\<close> has no polygon.  The second
  map holds ways that no layer takes: one that is not closed and one of another
  category.
\<close>

definition ExampleWay :: FStreetMapMiscWay where
  "ExampleWay =
     \<lparr> Points = [], BoundsMin = (0, 0), BoundsMax = (0, 0), WayType = LandUse,
       Category = ''Grass'', bIsClosed = True \<rparr>"

definition ExampleWays :: "FStreetMapMiscWay list" where
  "ExampleWays = [ExampleWay]"

definition ExampleDistance :: distance where
  "ExampleDistance ps p = (if p = (0, 0) then (0, True) else (1, False))"

definition PaintedLayers :: "FLandscapeImportLayerInfo list" where
  "PaintedLayers =
     [\<lparr>LayerName = ''Base'', LayerData = [255, 255, 255, 127]\<rparr>,
      \<lparr>LayerName = ''grass'', LayerData = [0, 0, 0, 128]\<rparr>,
      \<lparr>LayerName = ''Rock'', LayerData = [1, 0, 0, 0]\<rparr>]"

definition UnusedWays :: "FStreetMapMiscWay list" where
  "UnusedWays =
     [\<lparr> Points = [], BoundsMin = (0, 0), BoundsMax = (0, 0), WayType = LandUse,
         Category = ''grass'', bIsClosed = False \<rparr>,
      \<lparr> Points = [], BoundsMin = (0, 0), BoundsMax = (0, 0), WayType = LandUse,
         Category = ''residential'', bIsClosed = True \<rparr>]"

section \<open>Properties of the decoder\<close>

lemma RawElevationValue_128: "RawElevationValue 128 0 0 = 32768"
  by (simp add: RawElevationValue_def)

lemma RawElevationValue_127: "RawElevationValue 127 0 0 = 32512"
  by (simp add: RawElevationValue_def)

lemma UnpackElevation_pixel_128:
  "UnpackElevation
       (\<lambda>bytes. Some \<lparr> GetBitDepth = 8, GetFormat = RGBA, GetWidth = 1, GetHeight = 1,
                         GetRaw = Some [128, 0, 0, 255] \<rparr>)
       \<lparr> TileWidth = 1, TileHeight = 1, NumLevels = 1 \<rparr> []
       (NewCachedElevationFile 0 0 0 0)
     = Inr (True, (NewCachedElevationFile 0 0 0 0)
                    \<lparr> Elevation := [0], ElevationMin := 0, ElevationMax := 0 \<rparr>)"
proof -
  have a: "StoredElevationValue 128 0 0 = 0"
    by (simp add: StoredElevationValue_def IsValid_def RawElevationValue_128)
  have c: "UnpackPixels (Suc 0) [128, 0, 0, 255] [] FloatMax (- FloatMax) = Inr ([0], 0, 0)"
    by (simp add: a IsValid_def RawElevationValue_128 FloatMax_def)
  show ?thesis
    unfolding UnpackElevation_def NewCachedElevationFile_def
    by (simp add: c del: UnpackPixels.simps)
qed

text \<open>
  Claim C5, as stated: the pixel \<open>R = 128, G = 0, B = 0\<close> is stored as \<open>-256\<close>.  It
  is not: \<open>128 * 256 = 32768\<close>, so the stored elevation is \<open>0\<close>.
\<close>

theorem C5_pixel_128_is_not_minus_256:
  "StoredElevationValue 128 0 0 \<noteq> - 256 \<and>
   UnpackElevation
       (\<lambda>bytes. Some \<lparr> GetBitDepth = 8, GetFormat = RGBA, GetWidth = 1, GetHeight = 1,
                         GetRaw = Some [128, 0, 0, 255] \<rparr>)
       \<lparr> TileWidth = 1, TileHeight = 1, NumLevels = 1 \<rparr> []
       (NewCachedElevationFile 0 0 0 0)
     \<noteq> Inr (True, (NewCachedElevationFile 0 0 0 0)
                    \<lparr> Elevation := [- 256], ElevationMin := - 256, ElevationMax := - 256 \<rparr>)"
proof -
  have a: "StoredElevationValue 128 0 0 \<noteq> - 256"
    by (simp add: StoredElevationValue_def IsValid_def RawElevationValue_128)
  have b: "(NewCachedElevationFile 0 0 0 0)
              \<lparr> Elevation := [0], ElevationMin := 0, ElevationMax := 0 \<rparr>
           \<noteq> (NewCachedElevationFile 0 0 0 0)
              \<lparr> Elevation := [- 256], ElevationMin := - 256, ElevationMax := - 256 \<rparr>"
    by (simp add: NewCachedElevationFile_def)
  show ?thesis
    unfolding UnpackElevation_pixel_128 using a b by simp
qed

text \<open>
  Claim C5, amended: the pixel \<open>R = 128, G = 0, B = 0\<close> is a valid sample and is stored
  as \<open>0\<close>, which is \<open>R * 256 + G + B / 256 - 32768\<close>; the value \<open>-256\<close> is what the
  pixel \<open>R = 127, G = 0, B = 0\<close> is stored as.  The same holds for the elevation
  array of a one pixel tile decoded by \<^verbatim>\<open>UnpackElevation\<close>.
\<close>

theorem C5_pixel_128_is_zero:
  "StoredElevationValue 128 0 0 = 0 \<and>
   StoredElevationValue 128 0 0 = 128 * 256 + 0 + 0 / 256 - 32768 \<and>
   StoredElevationValue 127 0 0 = - 256 \<and>
   UnpackElevation
       (\<lambda>bytes. Some \<lparr> GetBitDepth = 8, GetFormat = RGBA, GetWidth = 1, GetHeight = 1,
                         GetRaw = Some [128, 0, 0, 255] \<rparr>)
       \<lparr> TileWidth = 1, TileHeight = 1, NumLevels = 1 \<rparr> []
       (NewCachedElevationFile 0 0 0 0)
     = Inr (True, (NewCachedElevationFile 0 0 0 0)
                    \<lparr> Elevation := [0], ElevationMin := 0, ElevationMax := 0 \<rparr>)"
proof -
  have a: "StoredElevationValue 128 0 0 = 0"
    by (simp add: StoredElevationValue_def IsValid_def RawElevationValue_128)
  have b: "StoredElevationValue 127 0 0 = - 256"
    by (simp add: StoredElevationValue_def IsValid_def RawElevationValue_127)
  show ?thesis
    using a b UnpackElevation_pixel_128 by simp
qed

theorem C5_pixel_128_witness:
  "StoredElevationValue 128 0 0 = 0"
  by (rule conjunct1 [OF C5_pixel_128_is_zero])

text \<open>
  Claim C6: a raster whose width or height is not the tile source's, or whose format
  is not RGBA or whose bit depth is not 8, makes \<^verbatim>\<open>UnpackElevation\<close> return false, and
  the file object is left as it was: the elevation array of a new file, which is empty,
  stays empty.  A download that delivers such a raster ends with the flag \<^verbatim>\<open>Failed\<close>
  set and nothing else changed.
\<close>

theorem C6_mismatch_fails_and_writes_nothing:
  assumes "SetCompressed RawData = Some Png"
    and "GetWidth Png \<noteq> TileWidth TiledMap \<or> GetHeight Png \<noteq> TileHeight TiledMap \<or>
         GetFormat Png \<noteq> RGBA \<or> GetBitDepth Png \<noteq> 8"
  shows "UnpackElevation SetCompressed TiledMap RawData f = Inr (False, f) \<and>
         UnpackElevation SetCompressed TiledMap RawData (NewCachedElevationFile now x y z)
           = Inr (False, NewCachedElevationFile now x y z) \<and>
         Elevation (NewCachedElevationFile now x y z) = [] \<and>
         OnDownloadSucceeded SetCompressed TiledMap (Some RawData) (n, f)
           = Inr (n - 1, f\<lparr>Failed := True\<rparr>)"
  using assms
  by (auto simp: UnpackElevation_def NewCachedElevationFile_def OnDownloadSucceeded_def)

theorem C6_mismatch_witness:
  "UnpackElevation
       (\<lambda>bytes. Some \<lparr> GetBitDepth = 8, GetFormat = RGBA, GetWidth = 2, GetHeight = 1,
                         GetRaw = Some [128, 0, 0, 255, 128, 0, 0, 255] \<rparr>)
       \<lparr> TileWidth = 1, TileHeight = 1, NumLevels = 1 \<rparr> []
       (NewCachedElevationFile 0 0 0 0)
     = Inr (False, NewCachedElevationFile 0 0 0 0) \<and>
   Elevation (NewCachedElevationFile 0 0 0 0) = []"
  using C6_mismatch_fails_and_writes_nothing
          [of "\<lambda>bytes. Some \<lparr> GetBitDepth = 8, GetFormat = RGBA, GetWidth = 2, GetHeight = 1,
                         GetRaw = Some [128, 0, 0, 255, 128, 0, 0, 255] \<rparr>" "[]"
              "\<lparr> GetBitDepth = 8, GetFormat = RGBA, GetWidth = 2, GetHeight = 1,
                 GetRaw = Some [128, 0, 0, 255, 128, 0, 0, 255] \<rparr>"
              "\<lparr> TileWidth = 1, TileHeight = 1, NumLevels = 1 \<rparr>"
              "NewCachedElevationFile 0 0 0 0" 0 0 0 0]
  by simp

section \<open>Properties of the download loop\<close>

text \<open>\<^verbatim>\<open>Tick\<close> leaves the coordinates of a file as they are.\<close>

lemma UnpackElevation_SameFile:
  "UnpackElevation c tm raw f = Inr (ok, f') \<Longrightarrow> SameFile f' f"
  by (auto simp: UnpackElevation_def SameFile_def split: option.splits if_splits sum.splits)

lemma OnDownloadSucceeded_SameFile:
  "OnDownloadSucceeded c tm r (n, f) = Inr (n', f') \<Longrightarrow> SameFile f' f"
  by (auto simp: OnDownloadSucceeded_def SameFile_def split: option.splits if_splits sum.splits
           dest!: UnpackElevation_SameFile)

lemma DownloadFile_SameFile:
  "DownloadFile p (n, f) = (n', f') \<Longrightarrow> SameFile f' f"
  by (auto simp: DownloadFile_def SameFile_def Let_def split: if_splits)

lemma Initialize_SameFile:
  "Initialize c tm env (n, f) = Inr (n', f') \<Longrightarrow> SameFile f' f"
  by (auto simp: Initialize_def SameFile_def Let_def split: option.splits if_splits sum.splits
           dest!: UnpackElevation_SameFile DownloadFile_SameFile)

lemma TickInitialized_SameFile:
  "TickInitialized c tm env (n, f) = Inr (n', f') \<Longrightarrow> SameFile f' f"
  by (auto simp: TickInitialized_def SameFile_def Let_def split: option.splits if_splits sum.splits
           dest!: OnDownloadSucceeded_SameFile)

lemma Tick_SameFile:
  "Tick c tm env (n, f) = Inr (n', f') \<Longrightarrow> SameFile f' f"
  by (auto simp: Tick_def SameFile_def split: if_splits sum.splits
           dest!: Initialize_SameFile TickInitialized_SameFile)

lemma CancelFiles_Calls:
  "Calls (CancelFiles fs s) = Calls s @ map CancelCallOf fs"
  by (induction fs arbitrary: s) (auto simp: CancelCallOf_def split: prod.splits)

lemma CancelFiles_FilesDownloaded:
  "FilesDownloaded (CancelFiles fs s) = FilesDownloaded s"
  by (induction fs arbitrary: s) (auto split: prod.splits)









lemma map_CancelCallOf_SameFile:
  "list_all2 SameFile xs ys \<Longrightarrow> map CancelCallOf xs = map CancelCallOf ys"
  by (induction rule: list_all2_induct) (auto simp: CancelCallOf_def SameFile_def)


lemmas example_defs =
  ExamplePng_def ExampleCodec_def ExampleMap_def ExampleTiling_def EnvCacheHit_def
  EnvNoRequest_def ExampleWorld_def ExampleFiles_def ExampleDecoded_def ExampleState1_def
  ExampleState2_def StartDownload_def NewElevationModel_def NewCachedElevationFile_def
  Round_def Tick_def TickInitialized_def Initialize_def DownloadFile_def
  OnDownloadSucceeded_def CancelRequest_def HasFinished_def Succeeded_def UnpackElevation_def
  MaxNumPendingDownloads_def Let_def StoredElevationValue_def RawElevationValue_def IsValid_def
  FloatMax_def



lemma ExampleState2_reached:
  "Round ExampleCodec ExampleMap ExampleWorld (length ExampleFiles) ExampleState1
     = Inr (FileFailed, ExampleState2)"
  by (simp add: example_defs)

text \<open>
  Consecutive calls of \<^verbatim>\<open>Tick\<close> leave file objects for the same tiles, and the
  \<^verbatim>\<open>for\<close> loop is such a run of calls: it goes on as long as the file it has ticked
  has not finished, and it ends behind the first that has.
\<close>

lemma TickAll_SameFile:
  "TickAll c tm w t n files = Inr (n', gs) \<Longrightarrow> list_all2 SameFile gs files"
proof (induction files arbitrary: t n gs)
  case Nil
  then show ?case by simp
next
  case (Cons f rest)
  from Cons.prems obtain n1 g gs' where
    t: "Tick c tm (TickEnvAt w t) (n, f) = Inr (n1, g)"
    and r: "TickAll c tm w (Suc t) n1 rest = Inr (n', gs')"
    and gs: "gs = g # gs'"
    by (auto split: sum.splits)
  from Tick_SameFile [OF t] Cons.IH [OF r] show ?case
    by (simp add: gs)
qed

lemma TickFiles_NoneFinished_ticks:
  "TickFiles c tm w N ticked files s = Inr (NoneFinished, s') \<Longrightarrow>
     \<exists>n ts. TickAll c tm w (NumTicks s) (NumPendingDownloads s) files = Inr (n, ts) \<and>
        (\<forall>f \<in> set ts. \<not> HasFinished f) \<and>
        FilesToDownload s' = ticked @ ts \<and>
        FilesDownloaded s' = FilesDownloaded s \<and>
        Calls s' = Calls s @ map TickCallOf files"
proof (induction files arbitrary: ticked s)
  case Nil
  then show ?case by auto
next
  case (Cons f rest)
  from Cons.prems obtain n g where
    t: "Tick c tm (TickEnvAt w (NumTicks s)) (NumPendingDownloads s, f) = Inr (n, g)"
    by (auto split: sum.splits)
  let ?s1 = "s\<lparr>NumPendingDownloads := n, NumTicks := NumTicks s + 1,
                        Calls := Calls s @ [TickCall (X f) (Y f)]\<rparr>"
  from Cons.prems t have nf: "\<not> HasFinished g"
    by (auto simp: Let_def split: if_splits)
  with Cons.prems t have rec: "TickFiles c tm w N (ticked @ [g]) rest ?s1 = Inr (NoneFinished, s')"
    by (simp add: Let_def)
  from Cons.IH [OF rec] obtain n' ts where
    a: "TickAll c tm w (Suc (NumTicks s)) n rest = Inr (n', ts)"
    and b: "\<forall>f \<in> set ts. \<not> HasFinished f"
    and d: "FilesToDownload s' = (ticked @ [g]) @ ts"
       "FilesDownloaded s' = FilesDownloaded s"
    and e: "Calls s' = Calls ?s1 @ map TickCallOf rest"
    by auto
  have "TickAll c tm w (NumTicks s) (NumPendingDownloads s) (f # rest) = Inr (n', g # ts)"
    using t a by simp
  moreover have "\<forall>f \<in> set (g # ts). \<not> HasFinished f"
    using nf b by simp
  moreover have "FilesToDownload s' = ticked @ (g # ts)"
    using d by simp
  moreover have "Calls s' = Calls s @ map TickCallOf (f # rest)"
    using e by (simp add: TickCallOf_def)
  ultimately show ?case using d(2) by blast
qed

lemma TickFiles_FileSucceeded_ticks:
  "TickFiles c tm w N ticked files s = Inr (FileSucceeded, s') \<Longrightarrow>
     \<exists>i < length files. \<exists>n ts g.
        TickAll c tm w (NumTicks s) (NumPendingDownloads s) (take (Suc i) files)
          = Inr (n, ts @ [g]) \<and>
        (\<forall>f \<in> set ts. \<not> HasFinished f) \<and> HasFinished g \<and> Succeeded g \<and>
        FilesToDownload s' = ticked @ ts @ drop (Suc i) files \<and>
        FilesDownloaded s' = FilesDownloaded s @ [g] \<and>
        Calls s' = Calls s @ map TickCallOf (take (Suc i) files)"
proof (induction files arbitrary: ticked s)
  case Nil
  then show ?case by simp
next
  case (Cons f rest)
  from Cons.prems obtain n g where
    t: "Tick c tm (TickEnvAt w (NumTicks s)) (NumPendingDownloads s, f) = Inr (n, g)"
    by (auto split: sum.splits)
  let ?s1 = "s\<lparr>NumPendingDownloads := n, NumTicks := NumTicks s + 1,
                        Calls := Calls s @ [TickCall (X f) (Y f)]\<rparr>"
  show ?case
  proof (cases "HasFinished g")
    case True
    with Cons.prems t have ok: "Succeeded g" by (auto simp: Let_def split: if_splits)
    with Cons.prems t True have
      "FilesToDownload s' = ticked @ [] @ drop (Suc 0) (f # rest)"
      "FilesDownloaded s' = FilesDownloaded s @ [g]"
      "Calls s' = Calls s @ map TickCallOf (take (Suc 0) (f # rest))"
      by (auto simp: Let_def TickCallOf_def)
    moreover have "TickAll c tm w (NumTicks s) (NumPendingDownloads s) (take (Suc 0) (f # rest))
                     = Inr (n, [] @ [g])"
      using t by simp
    moreover have "\<forall>f \<in> set []. \<not> HasFinished f" by simp
    moreover have "0 < length (f # rest)" by simp
    ultimately show ?thesis using ok True by blast
  next
    case False
    with Cons.prems t have rec: "TickFiles c tm w N (ticked @ [g]) rest ?s1 = Inr (FileSucceeded, s')"
      by (simp add: Let_def)
    from Cons.IH [OF rec] obtain i n' ts h where
      i: "i < length rest"
      and a: "TickAll c tm w (Suc (NumTicks s)) n (take (Suc i) rest) = Inr (n', ts @ [h])"
      and b: "\<forall>f \<in> set ts. \<not> HasFinished f" "HasFinished h" "Succeeded h"
      and d: "FilesToDownload s' = (ticked @ [g]) @ ts @ drop (Suc i) rest"
         "FilesDownloaded s' = FilesDownloaded s @ [h]"
      and e: "Calls s' = Calls ?s1 @ map TickCallOf (take (Suc i) rest)"
      by auto
    have "TickAll c tm w (NumTicks s) (NumPendingDownloads s) (take (Suc (Suc i)) (f # rest))
            = Inr (n', (g # ts) @ [h])"
      using t a by simp
    moreover have "\<forall>f \<in> set (g # ts). \<not> HasFinished f"
      using False b(1) by simp
    moreover have "FilesToDownload s' = ticked @ (g # ts) @ drop (Suc (Suc i)) (f # rest)"
      using d by simp
    moreover have "Calls s' = Calls s @ map TickCallOf (take (Suc (Suc i)) (f # rest))"
      using e by (simp add: TickCallOf_def)
    moreover have "Suc i < length (f # rest)" using i by simp
    ultimately show ?thesis using b(2,3) d(2) by blast
  qed
qed

lemma TickFiles_FileFailed_ticks:
  "TickFiles c tm w N ticked files s = Inr (FileFailed, s') \<Longrightarrow>
     \<exists>i < length files. \<exists>n ts g.
        TickAll c tm w (NumTicks s) (NumPendingDownloads s) (take (Suc i) files)
          = Inr (n, ts @ [g]) \<and>
        (\<forall>f \<in> set ts. \<not> HasFinished f) \<and> HasFinished g \<and> \<not> Succeeded g \<and>
        FilesToDownload s' = [] \<and>
        FilesDownloaded s' = FilesDownloaded s \<and>
        Calls s' = Calls s @ map TickCallOf (take (Suc i) files)
                     @ map CancelCallOf (ticked @ ts @ drop (Suc i) files)"
proof (induction files arbitrary: ticked s)
  case Nil
  then show ?case by simp
next
  case (Cons f rest)
  from Cons.prems obtain n g where
    t: "Tick c tm (TickEnvAt w (NumTicks s)) (NumPendingDownloads s, f) = Inr (n, g)"
    by (auto split: sum.splits)
  let ?s1 = "s\<lparr>NumPendingDownloads := n, NumTicks := NumTicks s + 1,
                        Calls := Calls s @ [TickCall (X f) (Y f)]\<rparr>"
  show ?case
  proof (cases "HasFinished g")
    case True
    with Cons.prems t have ns: "\<not> Succeeded g" by (auto simp: Let_def split: if_splits)
    with Cons.prems t True have s': "s' = (CancelFiles (ticked @ rest) (?s1\<lparr>FilesToDownload := ticked @ rest,
                               Progress := 1 / real N\<rparr>))\<lparr>FilesToDownload := []\<rparr>"
      by (simp add: Let_def)
    have "Calls s' = Calls s @ map TickCallOf (take (Suc 0) (f # rest))
                     @ map CancelCallOf (ticked @ [] @ drop (Suc 0) (f # rest))"
      by (simp add: s' CancelFiles_Calls TickCallOf_def)
    moreover have "TickAll c tm w (NumTicks s) (NumPendingDownloads s) (take (Suc 0) (f # rest))
                     = Inr (n, [] @ [g])"
      using t by simp
    moreover have "\<forall>f \<in> set []. \<not> HasFinished f" by simp
    moreover have "0 < length (f # rest)" by simp
    moreover have "FilesToDownload s' = []" "FilesDownloaded s' = FilesDownloaded s"
      by (simp_all add: s' CancelFiles_FilesDownloaded)
    ultimately show ?thesis using ns True by blast
  next
    case False
    with Cons.prems t have rec: "TickFiles c tm w N (ticked @ [g]) rest ?s1 = Inr (FileFailed, s')"
      by (simp add: Let_def)
    from Cons.IH [OF rec] obtain i n' ts h where
      i: "i < length rest"
      and a: "TickAll c tm w (Suc (NumTicks s)) n (take (Suc i) rest) = Inr (n', ts @ [h])"
      and b: "\<forall>f \<in> set ts. \<not> HasFinished f" "HasFinished h" "\<not> Succeeded h"
      and d: "FilesToDownload s' = []" "FilesDownloaded s' = FilesDownloaded s"
      and e: "Calls s' = Calls ?s1 @ map TickCallOf (take (Suc i) rest)
                     @ map CancelCallOf ((ticked @ [g]) @ ts @ drop (Suc i) rest)"
      by auto
    have "TickAll c tm w (NumTicks s) (NumPendingDownloads s) (take (Suc (Suc i)) (f # rest))
            = Inr (n', (g # ts) @ [h])"
      using t a by simp
    moreover have "\<forall>f \<in> set (g # ts). \<not> HasFinished f"
      using False b(1) by simp
    moreover have "Calls s' = Calls s @ map TickCallOf (take (Suc (Suc i)) (f # rest))
                     @ map CancelCallOf (ticked @ (g # ts) @ drop (Suc (Suc i)) (f # rest))"
      using e by (simp add: TickCallOf_def)
    moreover have "Suc i < length (f # rest)" using i by simp
    ultimately show ?thesis using b(2,3) d by blast
  qed
qed

lemma list_all2_SameFile_snoc:
  "list_all2 SameFile (ts @ [g]) (take (Suc i) files) \<Longrightarrow> i < length files \<Longrightarrow>
     list_all2 SameFile ts (take i files) \<and> SameFile g (files ! i)"
  by (simp add: take_Suc_conv_app_nth list_all2_append2 list_all2_Cons2)
     (auto simp: list_all2_Cons2 dest: list_all2_lengthD)

text \<open>
  Claim C9, as stated: in every iteration each pending file is ticked once.  In the
  first iteration of the example job the first file finishes, and the iteration ends
  with one call of \<^verbatim>\<open>Tick\<close>: the other three files are still pending and have not
  been ticked.
\<close>

theorem C9_files_behind_the_finished_one_are_not_ticked:
  "Round ExampleCodec ExampleMap ExampleWorld (length ExampleFiles)
      (StartDownload NewElevationModel 0 ExampleFiles)
     = Inr (FileSucceeded, ExampleState1) \<and>
   Calls ExampleState1 = [TickCall 0 0] \<and>
   Calls ExampleState1 \<noteq> map TickCallOf ExampleFiles \<and>
   FilesToDownload ExampleState1 = drop 1 ExampleFiles"
  by (simp add: example_defs TickCallOf_def)

text \<open>
  Claim C9, amended: in an iteration of the download loop the pending files are ticked
  in the order of the array, each at most once, up to and including the first file
  that has finished after its tick: the calls of the iteration are consecutive calls of
  \<^verbatim>\<open>Tick\<close> on the first \<open>i + 1\<close> pending files, none of the first \<open>i\<close> has finished
  after its call, and the last one has.  That file is taken out of the array and the
  iteration ends there, so the files behind it are not ticked in that iteration.  When
  the finished file has succeeded, it is added to the downloaded files, the files
  before it stay pending as their ticks left them and the files behind it stay pending
  as they were; when it has finished without success, \<^verbatim>\<open>CancelRequest\<close> is called on
  every other pending file and the array is emptied.  In an iteration in which no file
  finishes, every pending file is ticked once and all stay pending, as their ticks left
  them.
\<close>

theorem C9_round_ticks_up_to_first_finished:
  assumes "Round c tm w N s = Inr (out, s')"
  shows "(out = NoneFinished \<and>
            (\<exists>n. TickAll c tm w (NumTicks s) (NumPendingDownloads s) (FilesToDownload s)
                   = Inr (n, FilesToDownload s')) \<and>
            (\<forall>f \<in> set (FilesToDownload s'). \<not> HasFinished f) \<and>
            Calls s' = Calls s @ map TickCallOf (FilesToDownload s) \<and>
            list_all2 SameFile (FilesToDownload s') (FilesToDownload s) \<and>
            FilesDownloaded s' = FilesDownloaded s) \<or>
         (out = FileSucceeded \<and>
            (\<exists>i < length (FilesToDownload s). \<exists>n ticked g.
               TickAll c tm w (NumTicks s) (NumPendingDownloads s)
                   (take (Suc i) (FilesToDownload s)) = Inr (n, ticked @ [g]) \<and>
               (\<forall>f \<in> set ticked. \<not> HasFinished f) \<and> HasFinished g \<and> Succeeded g \<and>
               Calls s' = Calls s @ map TickCallOf (take (Suc i) (FilesToDownload s)) \<and>
               list_all2 SameFile ticked (take i (FilesToDownload s)) \<and>
               FilesToDownload s' = ticked @ drop (Suc i) (FilesToDownload s) \<and>
               SameFile g (FilesToDownload s ! i) \<and>
               FilesDownloaded s' = FilesDownloaded s @ [g])) \<or>
         (out = FileFailed \<and>
            (\<exists>i < length (FilesToDownload s). \<exists>n ticked g.
               TickAll c tm w (NumTicks s) (NumPendingDownloads s)
                   (take (Suc i) (FilesToDownload s)) = Inr (n, ticked @ [g]) \<and>
               (\<forall>f \<in> set ticked. \<not> HasFinished f) \<and>
               HasFinished g \<and> \<not> Succeeded g \<and> Failed g \<and>
               Calls s' = Calls s @ map TickCallOf (take (Suc i) (FilesToDownload s))
                  @ map CancelCallOf (take i (FilesToDownload s) @ drop (Suc i) (FilesToDownload s)) \<and>
               FilesToDownload s' = [] \<and>
               FilesDownloaded s' = FilesDownloaded s))"
proof -
  let ?files = "FilesToDownload s"
  from assms obtain s1 where
    t: "TickFiles c tm w N [] ?files (s\<lparr>Progress := 0\<rparr>) = Inr (out, s1)"
    and s': "s' = s1\<lparr>NumRounds := NumRounds s1 + 1\<rparr>"
    by (auto simp: Round_def split: sum.splits)
  show ?thesis
  proof (cases out)
    case NoneFinished
    from TickFiles_NoneFinished_ticks [OF t [unfolded NoneFinished]] obtain n ts where
      a: "TickAll c tm w (NumTicks s) (NumPendingDownloads s) ?files = Inr (n, ts)"
      and b: "\<forall>f \<in> set ts. \<not> HasFinished f"
      and d: "FilesToDownload s1 = ts" "FilesDownloaded s1 = FilesDownloaded s"
        "Calls s1 = Calls s @ map TickCallOf ?files"
      by auto
    have "list_all2 SameFile ts ?files"
      using a by (rule TickAll_SameFile)
    with a b d show ?thesis
      by (simp add: NoneFinished s')
  next
    case FileSucceeded
    from TickFiles_FileSucceeded_ticks [OF t [unfolded FileSucceeded]] obtain i n ts g where
      i: "i < length ?files"
      and a: "TickAll c tm w (NumTicks s) (NumPendingDownloads s) (take (Suc i) ?files)
                = Inr (n, ts @ [g])"
      and b: "\<forall>f \<in> set ts. \<not> HasFinished f" "HasFinished g" "Succeeded g"
      and d: "FilesToDownload s1 = ts @ drop (Suc i) ?files"
        "FilesDownloaded s1 = FilesDownloaded s @ [g]"
        "Calls s1 = Calls s @ map TickCallOf (take (Suc i) ?files)"
      by auto
    have "list_all2 SameFile (ts @ [g]) (take (Suc i) ?files)"
      using a by (rule TickAll_SameFile)
    then have e: "list_all2 SameFile ts (take i ?files)" "SameFile g (?files ! i)"
      using list_all2_SameFile_snoc i by blast+
    have "\<exists>i < length ?files. \<exists>n ticked g.
               TickAll c tm w (NumTicks s) (NumPendingDownloads s) (take (Suc i) ?files)
                 = Inr (n, ticked @ [g]) \<and>
               (\<forall>f \<in> set ticked. \<not> HasFinished f) \<and> HasFinished g \<and> Succeeded g \<and>
               Calls s' = Calls s @ map TickCallOf (take (Suc i) ?files) \<and>
               list_all2 SameFile ticked (take i ?files) \<and>
               FilesToDownload s' = ticked @ drop (Suc i) ?files \<and>
               SameFile g (?files ! i) \<and>
               FilesDownloaded s' = FilesDownloaded s @ [g]"
      using i a b d e unfolding s'
      by (intro exI [of _ i] exI [of _ n] exI [of _ ts] exI [of _ g]) simp
    then show ?thesis by (simp add: FileSucceeded)
  next
    case FileFailed
    from TickFiles_FileFailed_ticks [OF t [unfolded FileFailed]] obtain i n ts g where
      i: "i < length ?files"
      and a: "TickAll c tm w (NumTicks s) (NumPendingDownloads s) (take (Suc i) ?files)
                = Inr (n, ts @ [g])"
      and b: "\<forall>f \<in> set ts. \<not> HasFinished f" "HasFinished g" "\<not> Succeeded g"
      and d: "FilesToDownload s1 = []" "FilesDownloaded s1 = FilesDownloaded s"
      and e: "Calls s1 = Calls s @ map TickCallOf (take (Suc i) ?files)
                     @ map CancelCallOf ([] @ ts @ drop (Suc i) ?files)"
      by auto
    have "list_all2 SameFile (ts @ [g]) (take (Suc i) ?files)"
      using a by (rule TickAll_SameFile)
    then have l: "list_all2 SameFile ts (take i ?files)"
      using list_all2_SameFile_snoc i by blast
    have c: "Calls s' = Calls s @ map TickCallOf (take (Suc i) ?files)
                  @ map CancelCallOf (take i ?files @ drop (Suc i) ?files)"
      using e map_CancelCallOf_SameFile [OF l] by (simp add: s')
    have f: "Failed g"
      using b(2,3) by (simp add: HasFinished_def Succeeded_def)
    have "\<exists>i < length ?files. \<exists>n ticked g.
               TickAll c tm w (NumTicks s) (NumPendingDownloads s) (take (Suc i) ?files)
                 = Inr (n, ticked @ [g]) \<and>
               (\<forall>f \<in> set ticked. \<not> HasFinished f) \<and>
               HasFinished g \<and> \<not> Succeeded g \<and> Failed g \<and>
               Calls s' = Calls s @ map TickCallOf (take (Suc i) ?files)
                  @ map CancelCallOf (take i ?files @ drop (Suc i) ?files) \<and>
               FilesToDownload s' = [] \<and>
               FilesDownloaded s' = FilesDownloaded s"
      using i a b d c f unfolding s'
      by (intro exI [of _ i] exI [of _ n] exI [of _ ts] exI [of _ g]) simp
    then show ?thesis by (simp add: FileFailed)
  qed
qed

theorem C9_round_witness:
  "\<exists>i < length (FilesToDownload ExampleState1). \<exists>n ticked g.
      TickAll ExampleCodec ExampleMap ExampleWorld (NumTicks ExampleState1)
          (NumPendingDownloads ExampleState1) (take (Suc i) (FilesToDownload ExampleState1))
        = Inr (n, ticked @ [g]) \<and>
      (\<forall>f \<in> set ticked. \<not> HasFinished f) \<and>
      HasFinished g \<and> \<not> Succeeded g \<and> Failed g \<and>
      Calls ExampleState2 = Calls ExampleState1
         @ map TickCallOf (take (Suc i) (FilesToDownload ExampleState1))
         @ map CancelCallOf (take i (FilesToDownload ExampleState1)
                              @ drop (Suc i) (FilesToDownload ExampleState1)) \<and>
      FilesToDownload ExampleState2 = [] \<and>
      FilesDownloaded ExampleState2 = FilesDownloaded ExampleState1"
  using C9_round_ticks_up_to_first_finished [OF ExampleState2_reached] by simp



section \<open>Properties of the quantisation\<close>

text \<open>
  \<^verbatim>\<open>RoundToInt\<close> gives the integer \<open>k\<close> for every float less than a half away from
  it: an error of the float operations of that size does not change a quantised value.
\<close>

lemma RoundToInt_near:
  "\<bar>x - real_of_int k\<bar> < 1 / 2 \<Longrightarrow> - (2 ^ 31) \<le> k \<Longrightarrow> k < 2 ^ 31 \<Longrightarrow> RoundToInt (Finite x) = Inr k"
proof -
  assume a: "\<bar>x - real_of_int k\<bar> < 1 / 2" and b: "- (2 ^ 31) \<le> k" "k < 2 ^ 31"
  have "\<lfloor>x + 1 / 2\<rfloor> = k"
    using a by (intro floor_unique) linarith+
  with b show ?thesis by simp
qed

text \<open>
  Claim C4: for a range with \<open>emin < emax\<close> the quantisation maps the elevation \<open>emin\<close>
  to 0 and the elevation \<open>emax\<close> to 65535.
\<close>

theorem C4_quantize_range_ends:
  assumes "emin < emax"
  shows "QuantizeElevation emin emax (Finite emin) = Inr 0 \<and>
         QuantizeElevation emin emax (Finite emax) = Inr 65535"
proof -
  have scale: "ElevationScale emin emax = Finite (65535 / (emax - emin))"
    using assms by (simp add: ElevationScale_def ElevationRange_def)
  have r0: "RoundToInt (Finite 0) = Inr 0"
    by simp
  have "\<lfloor>(65535::real) + 1 / 2\<rfloor> = 65535"
    by (intro floor_unique) simp_all
  then have r1: "RoundToInt (Finite 65535) = Inr 65535"
    by simp
  define d where "d = emax - emin"
  have "d \<noteq> 0"
    using assms by (simp add: d_def)
  then have "d * (65535 / d) = 65535"
    by simp
  then have "(emax - emin) * (65535 / (emax - emin)) = 65535"
    by (simp only: d_def)
  then have p1: "fmul (fsub (Finite emax) (Finite emin)) (Finite (65535 / (emax - emin)))
                   = Finite 65535"
    by (simp only: fsub.simps fmul.simps)
  have p0: "fmul (fsub (Finite emin) (Finite emin)) (Finite (65535 / (emax - emin))) = Finite 0"
    by simp
  have lo: "QuantizeElevation emin emax (Finite emin) = Inr 0"
    by (simp only: QuantizeElevation_def scale Let_def p0 r0) simp
  have hi: "QuantizeElevation emin emax (Finite emax) = Inr 65535"
    by (simp only: QuantizeElevation_def scale Let_def p1 r1) simp
  from lo hi show ?thesis by simp
qed

theorem C4_quantize_witness:
  "QuantizeElevation (- 256) 8848 (Finite (- 256)) = Inr 0 \<and>
   QuantizeElevation (- 256) 8848 (Finite 8848) = Inr 65535"
  using C4_quantize_range_ends [of "- 256" 8848] by simp

text \<open>
  With a degenerate range the scale is \<open>65535 / 0\<close>, an infinity, the scaled value of
  every sample is an infinity or not a number, and its conversion to an integer is
  undefined.
\<close>

lemma QuantizeElevation_degenerate:
  "QuantizeElevation e e v = Inl FloatToIntUndefined"
proof -
  have s: "ElevationScale e e = PlusInfinity"
    by (simp add: ElevationScale_def ElevationRange_def)
  have "RoundToInt (fmul (fsub v (Finite e)) PlusInfinity) = Inl FloatToIntUndefined"
    by (cases v) simp_all
  then show ?thesis
    by (simp add: QuantizeElevation_def s)
qed

text \<open>
  A model without a valid sample still has the initial bounds: the range is \<open>-\<infinity>\<close>,
  the scale a zero, and every sampled vertex is quantised to 0.
\<close>

lemma QuantizeElevation_no_valid_sample:
  "ElevationRange FloatMax (- FloatMax) = MinusInfinity \<and>
   QuantizeElevation FloatMax (- FloatMax) (Finite v) = Inr 0"
proof -
  have r: "ElevationRange FloatMax (- FloatMax) = MinusInfinity"
    by (simp add: ElevationRange_def FloatMax_def)
  show ?thesis
    by (simp add: r QuantizeElevation_def ElevationScale_def)
qed

lemma flat_sample: "\<exists>v. SampleElevationLanczos (replicate 36 0) 6 6 (2, 2) = Inr v"
  by (simp add: SampleElevationLanczos_def Taps_def TruncToInt_def Let_def)

text \<open>
  The flat model is what \<^verbatim>\<open>LoadElevationData\<close> builds from a tile source whose one
  tile has the same elevation at every pixel, and \<^verbatim>\<open>ReprojectData\<close> has no defined
  result for it.
\<close>

lemma UnpackPixels_flat:
  "UnpackPixels n (concat (replicate n [128, 0, 0, 255])) acc emin emax
     = Inr (acc @ replicate n 0, if n = 0 then emin else min emin 0,
            if n = 0 then emax else max emax 0)"
proof (induction n arbitrary: acc emin emax)
  case 0
  then show ?case by simp
next
  case (Suc n)
  have v: "StoredElevationValue 128 0 0 = 0" and ok: "IsValid (RawElevationValue 128 0 0)"
    by (simp_all add: StoredElevationValue_def IsValid_def RawElevationValue_def)
  have "UnpackPixels (Suc n) (concat (replicate (Suc n) [128, 0, 0, 255])) acc emin emax
          = UnpackPixels n (concat (replicate n [128, 0, 0, 255])) (acc @ [0])
              (min emin 0) (max emax 0)"
    by (simp add: v ok Let_def)
  also have "\<dots> = Inr ((acc @ [0]) @ replicate n 0,
                        if n = 0 then min emin 0 else min (min emin 0) 0,
                        if n = 0 then max emax 0 else max (max emax 0) 0)"
    by (rule Suc.IH)
  finally show ?case by (simp add: replicate_app_Cons_same)
qed

lemma FlatTile_unpacked:
  "UnpackElevation FlatCodec FlatMap []
     \<lparr> WasInitialized = True, WasDownloadSuccessful = False, Failed = False,
       StartTime = 0, TimeSpan = 0, HttpRequest = None, Elevation = [],
       X = 0, Y = 0, Z = 0, ElevationMin = FloatMax, ElevationMax = - FloatMax \<rparr>
   = Inr (True,
     \<lparr> WasInitialized = True, WasDownloadSuccessful = False, Failed = False,
       StartTime = 0, TimeSpan = 0, HttpRequest = None, Elevation = replicate 36 0,
       X = 0, Y = 0, Z = 0, ElevationMin = 0, ElevationMax = 0 \<rparr>)"
proof -
  have n: "nat (6 * 6) = 36"
    by simp
  have m: "min FloatMax 0 = 0" "max (- FloatMax) 0 = 0"
    by (simp_all add: FloatMax_def)
  show ?thesis
    unfolding UnpackElevation_def FlatCodec_def FlatPng_def FlatMap_def
    by (simp add: n UnpackPixels_flat m del: UnpackPixels.simps)
qed

lemma FlatTile_decoded:
  "Tick FlatCodec FlatMap EnvCacheHit (0, NewCachedElevationFile 0 0 0 0) = Inr (0, FlatTile)"
  unfolding Tick_def Initialize_def NewCachedElevationFile_def FlatTile_def
  by (simp add: EnvCacheHit_def FlatTile_unpacked Let_def TickInitialized_def
        MaxNumPendingDownloads_def)

lemma FlatFiles_collected:
  "CollectFiles FlatMap Some FlatTiling 1 1 0 = Some [NewCachedElevationFile 0 0 0 0]"
  by (simp add: CollectFiles_def FlatMap_def FlatTiling_def upto.simps)

lemma FlatModel_round:
  "Round FlatCodec FlatMap FlatWorld (Suc 0)
     (StartDownload NewElevationModel 0 [NewCachedElevationFile 0 0 0 0])
   = Inr (FileSucceeded, FlatState)"
proof -
  have t: "Tick FlatCodec FlatMap EnvCacheHit (0, NewCachedElevationFile 0 0 0 0)
             = Inr (0, FlatTile)"
    by (rule FlatTile_decoded)
  have f: "HasFinished FlatTile" "Succeeded FlatTile" "ElevationMin FlatTile = 0"
    "ElevationMax FlatTile = 0"
    by (simp_all add: FlatTile_def HasFinished_def Succeeded_def)
  have k: "X (NewCachedElevationFile 0 0 0 0) = 0" "Y (NewCachedElevationFile 0 0 0 0) = 0"
    by (simp_all add: NewCachedElevationFile_def)
  have m: "min FloatMax 0 = 0" "max (- FloatMax) 0 = 0"
    by (simp_all add: FloatMax_def)
  show ?thesis
    unfolding Round_def StartDownload_def NewElevationModel_def FlatWorld_def
    by (simp add: t f k m FlatState_def)
qed

lemma FlatModel_loaded:
  "LoadElevationData 1 FlatCodec FlatMap Some FlatTiling FlatWorld 1 1 0 NewElevationModel 0
     = Some (Inr (True, FlatState))"
proof -
  have c: "\<not> ReceivedUserCancel FlatWorld 0"
    by (simp add: FlatWorld_def)
  have s: "FilesToDownload (StartDownload NewElevationModel 0 [NewCachedElevationFile 0 0 0 0]) \<noteq> []"
    "NumRounds (StartDownload NewElevationModel 0 [NewCachedElevationFile 0 0 0 0]) = 0"
    by (simp_all add: StartDownload_def)
  have e: "FilesToDownload FlatState = []" "length (FilesDownloaded FlatState) = 1"
    by (simp_all add: FlatState_def)
  have l: "DownloadLoop (Suc 0) FlatCodec FlatMap FlatWorld (Suc 0)
             (StartDownload NewElevationModel 0 [NewCachedElevationFile 0 0 0 0])
           = Some (Inr FlatState)"
    by (simp add: s c FlatModel_round e)
  show ?thesis
    unfolding LoadElevationData_def FlatFiles_collected DownloadFiles_def
    using l e by (simp del: DownloadLoop.simps)
qed

lemma FlatModel_vertex:
  "ReprojectVertex FlatMap Some FlatTiling FlatModel qs x y = Inl FloatToIntUndefined"
proof -
  from flat_sample obtain v' where v': "SampleElevationLanczos (replicate 36 0) 6 6 (2, 2) = Inr v'"
    by blast
  show ?thesis
    by (simp add: ReprojectVertex_def FlatMap_def FlatTiling_def FlatModel_def FlatTile_def
          NewCachedElevationFile_def v' QuantizeElevation_degenerate)
qed

lemma FlatModel_reprojected:
  "ReprojectData FlatMap Some FlatTiling rcancel 1 1 FlatModel = Inl FloatToIntUndefined"
  by (simp add: ReprojectData_def Let_def upto.simps FlatModel_vertex)

text \<open>
  Claim C3 asks for a guard against the degenerate range \<open>max = min\<close> and for a defined
  fallback value.  The code has none: \<^verbatim>\<open>ElevationScale\<close> is computed as \<open>65535 / 0\<close>
  whatever the range is, and no sample is quantised to a defined value.  For the flat
  tile of the example \<^verbatim>\<open>LoadElevationData\<close> succeeds with a degenerate range, the
  vertex \<open>(0, 0)\<close>, which is sampled, gets no value, and \<^verbatim>\<open>BuildLandscape\<close> runs into
  the undefined conversion.
\<close>

theorem C3_degenerate_range_is_not_guarded:
  "ElevationScale e e = PlusInfinity \<and>
   QuantizeElevation e e v = Inl FloatToIntUndefined \<and>
   LoadElevationData 1 FlatCodec FlatMap Some FlatTiling FlatWorld 1 1 0 NewElevationModel 0
     = Some (Inr (True, FlatState)) \<and>
   ModelElevationMin FlatState = ModelElevationMax FlatState \<and>
   ReprojectVertex FlatMap Some FlatTiling FlatModel 1 0 0 = Inl FloatToIntUndefined \<and>
   BuildLandscape 1 FlatCodec FlatMap Some FlatTiling FlatWorld (\<lambda>y. False) (\<lambda>scale p. p)
       (\<lambda>ps p. (0, False)) (\<lambda>name k. False) 1 1 1 [] [] 0 0
     = Some (Inl FloatToIntUndefined)"
proof -
  have t: "FElevationModel.truncate FlatState = FlatModel"
    by (simp add: FlatState_def FlatModel_def FElevationModel.truncate_def)
  have build: "BuildLandscape 1 FlatCodec FlatMap Some FlatTiling FlatWorld (\<lambda>y. False)
       (\<lambda>scale p. p) (\<lambda>ps p. (0, False)) (\<lambda>name k. False) 1 1 1 [] [] 0 0
     = Some (Inl FloatToIntUndefined)"
    unfolding BuildLandscape_def FlatModel_loaded
    by (simp add: t FlatModel_reprojected)
  have scale: "ElevationScale e e = PlusInfinity"
    by (simp add: ElevationScale_def ElevationRange_def)
  have range: "ModelElevationMin FlatState = ModelElevationMax FlatState"
    by (simp add: FlatState_def)
  show ?thesis
    by (intro conjI)
       (fact scale, rule QuantizeElevation_degenerate, rule FlatModel_loaded, fact range,
        rule FlatModel_vertex, fact build)
qed

section \<open>Properties of the reprojection\<close>

text \<open>
  When the loops of \<^verbatim>\<open>ReprojectData\<close> run to their end, the height map holds the
  values of the vertices row by row.
\<close>

lemma ReprojectRow_nth:
  "ReprojectRow tm proj tiling m qs y xs = Inr row \<Longrightarrow>
     length row = length xs \<and>
     (\<forall>i < length xs. ReprojectVertex tm proj tiling m qs (xs ! i) y = Inr (row ! i))"
proof (induction xs arbitrary: row)
  case Nil
  then show ?case by simp
next
  case (Cons x xs)
  from Cons.prems obtain q qs' where
    q: "ReprojectVertex tm proj tiling m qs x y = Inr q"
    and r: "ReprojectRow tm proj tiling m qs y xs = Inr qs'"
    and row: "row = q # qs'"
    by (auto split: sum.splits)
  from Cons.IH [OF r] q show ?case
    by (auto simp: row nth_Cons split: nat.splits)
qed

lemma ReprojectRows_nth:
  "ReprojectRows tm proj tiling m qs uc xs ys out = Inr (True, res) \<Longrightarrow>
     \<exists>rest. res = out @ rest \<and> length rest = length ys * length xs \<and>
       (\<forall>j < length ys. \<forall>i < length xs.
          ReprojectVertex tm proj tiling m qs (xs ! i) (ys ! j) = Inr (rest ! (j * length xs + i)))"
proof (induction ys arbitrary: out)
  case Nil
  then show ?case by simp
next
  case (Cons y ys)
  from Cons.prems obtain row where
    r: "ReprojectRow tm proj tiling m qs y xs = Inr row"
    and rec: "ReprojectRows tm proj tiling m qs uc xs ys (out @ row) = Inr (True, res)"
    by (auto split: sum.splits if_splits)
  from ReprojectRow_nth [OF r] have
    lr: "length row = length xs"
    and vr: "\<And>i. i < length xs \<Longrightarrow> ReprojectVertex tm proj tiling m qs (xs ! i) y = Inr (row ! i)"
    by auto
  from Cons.IH [OF rec] obtain rest where
    res: "res = (out @ row) @ rest" and l: "length rest = length ys * length xs"
    and v: "\<And>j i. j < length ys \<Longrightarrow> i < length xs \<Longrightarrow>
              ReprojectVertex tm proj tiling m qs (xs ! i) (ys ! j) = Inr (rest ! (j * length xs + i))"
    by auto
  have "\<forall>j < length (y # ys). \<forall>i < length xs.
          ReprojectVertex tm proj tiling m qs (xs ! i) ((y # ys) ! j)
            = Inr ((row @ rest) ! (j * length xs + i))"
  proof (intro allI impI)
    fix j i assume j: "j < length (y # ys)" and i: "i < length xs"
    show "ReprojectVertex tm proj tiling m qs (xs ! i) ((y # ys) ! j)
            = Inr ((row @ rest) ! (j * length xs + i))"
    proof (cases j)
      case 0
      then show ?thesis using vr [OF i] i lr by (simp add: nth_append)
    next
      case (Suc j')
      then have "j' < length ys" using j by simp
      from v [OF this i] show ?thesis
        using Suc lr by (simp add: nth_append)
    qed
  qed
  moreover have "res = out @ (row @ rest)" using res by simp
  moreover have "length (row @ rest) = length (y # ys) * length xs" using l lr by simp
  ultimately show ?case by blast
qed

lemma ReprojectVertex_sentinel:
  assumes "ReprojectVertex tm proj tiling m qs x y = Inr q"
    and "proj (real_of_int x * qs, real_of_int y * qs) = None \<or>
         (\<exists>wx wy px py. proj (real_of_int x * qs, real_of_int y * qs) = Some (wx, wy) \<and>
            snd (tiling wx wy (NumLevels tm - 1)) = (px, py) \<and>
            (px < 2 \<or> py < 2 \<or> real_of_int (TileWidth tm - 3) \<le> px \<or>
             real_of_int (TileHeight tm - 3) \<le> py))"
  shows "q = 32768"
  using assms
  by (auto simp: ReprojectVertex_def Let_def split: option.splits prod.splits if_splits)

text \<open>
  Claim C7: in the height map that \<^verbatim>\<open>ReprojectData\<close> returns, the value of a vertex
  \<open>(x, y)\<close> of the grid is 32768 when the projection of its location fails, and when
  the pixel position \<open>(px, py)\<close> in its tile has \<open>px < 2\<close> or \<open>py < 2\<close> (less than 2
  pixels from the left or upper edge) or \<open>px \<ge> TileWidth - 3\<close> or
  \<open>py \<ge> TileHeight - 3\<close> (at most 2 pixels from the last column or row).  The value
  stands at the index \<open>(y + N) * 2N + (x + N)\<close> of the height map.
\<close>

theorem C7_sentinel:
  assumes "ReprojectData tm proj tiling uc N qs m = Inr (True, out, m')"
    and "- N \<le> x" "x < N" "- N \<le> y" "y < N"
    and "proj (real_of_int x * qs, real_of_int y * qs) = None \<or>
         (\<exists>wx wy px py. proj (real_of_int x * qs, real_of_int y * qs) = Some (wx, wy) \<and>
            snd (tiling wx wy (NumLevels tm - 1)) = (px, py) \<and>
            (px < 2 \<or> py < 2 \<or> real_of_int (TileWidth tm - 3) \<le> px \<or>
             real_of_int (TileHeight tm - 3) \<le> py))"
  shows "ReprojectVertex tm proj tiling m qs x y = Inr 32768 \<and>
         length out = nat (2 * N) * nat (2 * N) \<and>
         out ! (nat (y + N) * nat (2 * N) + nat (x + N)) = 32768"
proof -
  let ?vs = "[- N .. N - 1]"
  from assms(1) have rows: "ReprojectRows tm proj tiling m qs uc ?vs ?vs [] = Inr (True, out)"
    by (auto simp: ReprojectData_def Let_def split: sum.splits prod.splits bool.splits)
  have len: "length ?vs = nat (2 * N)"
    by simp
  from ReprojectRows_nth [OF rows] have
    l: "length out = length ?vs * length ?vs"
    and v: "\<And>j i. j < length ?vs \<Longrightarrow> i < length ?vs \<Longrightarrow>
              ReprojectVertex tm proj tiling m qs (?vs ! i) (?vs ! j)
                = Inr (out ! (j * length ?vs + i))"
    by auto
  have i: "nat (x + N) < length ?vs" and j: "nat (y + N) < length ?vs"
    using assms(2-5) by auto
  have xi: "?vs ! nat (x + N) = x" and yj: "?vs ! nat (y + N) = y"
    using assms(2-5) by auto
  from v [OF j i] have
    e: "ReprojectVertex tm proj tiling m qs x y = Inr (out ! (nat (y + N) * nat (2 * N) + nat (x + N)))"
    unfolding xi yj len .
  from ReprojectVertex_sentinel [OF e assms(6)] e l show ?thesis
    unfolding len by simp
qed


lemma edge_example:
  "ReprojectData FlatMap EastOnly EdgeTiling (\<lambda>y. False) 1 1 FlatModel
     = Inr (True, [32768, 32768, 32768, 32768],
            FlatModel\<lparr>Scale3D := (100 / 128, 100 / 128, Finite 0)\<rparr>)"
  by (simp add: ReprojectData_def ReprojectVertex_def FlatMap_def EastOnly_def EdgeTiling_def
        FlatModel_def FlatTile_def NewCachedElevationFile_def upto.simps Let_def
        OSMToCentimetersScaleFactor_def DefaultLandscapeScaleXY_def DefaultLandscapeScaleZ_def
        ElevationRange_def)

theorem C7_witness:
  "ReprojectVertex FlatMap EastOnly EdgeTiling FlatModel 1 0 0 = Inr 32768 \<and>
   ReprojectData FlatMap EastOnly EdgeTiling (\<lambda>y. False) 1 1 FlatModel
     = Inr (True, [32768, 32768, 32768, 32768],
            FlatModel\<lparr>Scale3D := (100 / 128, 100 / 128, Finite 0)\<rparr>) \<and>
   [32768, 32768, 32768, 32768 :: uint16] ! 3 = 32768"
proof -
  have h: "EastOnly (real_of_int 0 * 1, real_of_int 0 * 1) = None \<or>
         (\<exists>wx wy px py. EastOnly (real_of_int 0 * 1, real_of_int 0 * 1) = Some (wx, wy) \<and>
            snd (EdgeTiling wx wy (NumLevels FlatMap - 1)) = (px, py) \<and>
            (px < 2 \<or> py < 2 \<or> real_of_int (TileWidth FlatMap - 3) \<le> px \<or>
             real_of_int (TileHeight FlatMap - 3) \<le> py))"
    by (simp add: EastOnly_def EdgeTiling_def)
  have n: "nat (0 + 1) * nat (2 * 1) + nat (0 + 1) = 3"
    by simp
  from C7_sentinel [OF edge_example _ _ _ _ h] show ?thesis
    unfolding n using edge_example by simp
qed

section \<open>Properties of the blend weights\<close>

text \<open>
  The layers are matched without regard to case: the layer \<open>grass\<close> takes the closed way
  of category \<open>Grass\<close> of the example map.  The layer \<open>Rock\<close> takes no way of any map,
  and the layers \<open>Grass\<close> and \<open>WOOD\<close> take none of the second map, whose ways are not
  closed or of a category that is not in their lists.  In the example job the layer
  \<open>grass\<close> paints the pixel 3 once and no other pixel.
\<close>

lemma no_ways: "GetPolygonWaysForLayer Name [] = []"
  by (simp add: GetPolygonWaysForLayer_def split: option.splits)

lemma four: "replicate 4 x = [x, x, x, x]"
  by (simp add: eval_nat_numeral)

lemma ways_grass: "GetPolygonWaysForLayer ''grass'' ExampleWays = [ExampleWay]"
  by (simp add: GetPolygonWaysForLayer_def LayerWayMapping_def FNameEqual_def FStringEqual_def
        FWayMatchEqual_def ToLower_def ExampleWays_def ExampleWay_def)

lemma ways_Rock: "GetPolygonWaysForLayer ''Rock'' ways = []"
  by (simp add: GetPolygonWaysForLayer_def LayerWayMapping_def FNameEqual_def ToLower_def)

lemma ways_unused:
  "GetPolygonWaysForLayer ''Grass'' UnusedWays = [] \<and> GetPolygonWaysForLayer ''WOOD'' UnusedWays = []"
  by (simp add: GetPolygonWaysForLayer_def LayerWayMapping_def FNameEqual_def FStringEqual_def
        FWayMatchEqual_def ToLower_def UnusedWays_def)

lemma floor_minus_1: "\<lfloor>- 1 :: real\<rfloor> = - 1"
  by (rule floor_unique) simp_all

lemma example_vertices:
  "PolygonVertices (\<lambda>p. p) 1 (1 / 50) ExampleWay = [(- 1, - 1), (0, - 1), (- 1, 0), (0, 0)]"
  by (simp add: PolygonVertices_def ExampleWay_def OSMToCentimetersScaleFactor_def Let_def
        floor_minus_1 upto.simps)

lemma example_polygon:
  "RasterizePolygon (\<lambda>p. p) ExampleDistance 1 1 (1 / 50) ExampleWay
       ([\<lparr>LayerName = ''Base'', LayerData = [255, 255, 255, 255]\<rparr>], [0, 0, 0, 0])
     = Inr ([\<lparr>LayerName = ''Base'', LayerData = [255, 255, 255, 127]\<rparr>], [0, 0, 0, 128])"
  by (simp add: RasterizePolygon_def example_vertices PaintVertex_def PaintPixel_def
        ExampleDistance_def OSMToCentimetersScaleFactor_def SMALL_NUMBER_def Let_def)

lemma painted_example:
  "CreateLandscape (\<lambda>p. p) ExampleDistance (\<lambda>name k. False) 1 1 (1 / 50) ExampleWays
       [''Base'', ''grass'', ''Rock'']
     = Inr (Some PaintedLayers)"
  by (simp add: CreateLandscape_def Let_def four ways_grass ways_Rock example_polygon
        PaintedLayers_def)

lemma example_counts:
  "PaintCount (\<lambda>p. p) ExampleDistance 1 1 (1 / 50) ExampleWays 3 ''grass'' = 1"
  "PaintCount (\<lambda>p. p) ExampleDistance 1 1 (1 / 50) ExampleWays 0 ''grass'' = 0"
  "PaintCount (\<lambda>p. p) ExampleDistance 1 1 (1 / 50) ExampleWays c ''Rock'' = 0"
  by (simp_all add: PaintCount_def PolygonPaintCount_def ways_grass ways_Rock example_vertices
        VertexPaints_def ExampleDistance_def OSMToCentimetersScaleFactor_def Let_def)

text \<open>
  Claim C8, as stated: without polygons every layer but the first has weight 0 at every
  pixel.  The first pixel of such a layer is set to 1.
\<close>

theorem C8_marker_pixel:
  "CreateLandscape (\<lambda>p. p) (\<lambda>ps p. (0, False)) (\<lambda>name k. False) 1 1 1 [] [''Base'', ''Grass'']
     = Inr (Some [\<lparr>LayerName = ''Base'', LayerData = [255, 255, 255, 255]\<rparr>,
                  \<lparr>LayerName = ''Grass'', LayerData = [1, 0, 0, 0]\<rparr>]) \<and>
   LayerData \<lparr>LayerName = ''Grass'', LayerData = [1, 0, 0, 0]\<rparr> ! 0 \<noteq> 0"
  by (simp add: CreateLandscape_def Let_def no_ways four)

lemma FillLayers_no_polygons:
  assumes "\<forall>Name \<in> set Others. GetPolygonWaysForLayer Name MiscWays = []"
    and "N \<noteq> 0" and "ImportLayers \<noteq> []"
  shows "FillLayers tlocal sqdist ccancel N qs bg MiscWays Others ImportLayers
           = Inr (Some (ImportLayers @
                  map (\<lambda>Name. \<lparr>LayerName = Name,
                                 LayerData = (replicate (nat (N * 2 * (N * 2))) 0)[0 := 1]\<rparr>)
                      Others))"
  using assms
proof (induction Others arbitrary: ImportLayers)
  case Nil
  then show ?case by simp
next
  case (Cons Name Others)
  have "0 < N * N"
    using Cons.prems(2) by (auto simp: zero_less_mult_iff)
  then have "0 < N * 2 * (N * 2)"
    by simp
  then have ne: "replicate (nat (N * 2 * (N * 2))) (0 :: uint8) \<noteq> []"
    by simp
  have np: "GetPolygonWaysForLayer Name MiscWays = []"
    using Cons.prems(1) by simp
  have rest: "\<forall>Name \<in> set Others. GetPolygonWaysForLayer Name MiscWays = []"
    using Cons.prems(1) by simp
  let ?L = "\<lparr>LayerName = Name, LayerData = (replicate (nat (N * 2 * (N * 2))) 0)[0 := 1]\<rparr>"
  have "FillLayers tlocal sqdist ccancel N qs bg MiscWays (Name # Others) ImportLayers
          = FillLayers tlocal sqdist ccancel N qs bg MiscWays Others (ImportLayers @ [?L])"
    using Cons.prems(3) ne np by (simp add: Let_def)
  also have "\<dots> = Inr (Some ((ImportLayers @ [?L]) @
                  map (\<lambda>Name. \<lparr>LayerName = Name,
                                 LayerData = (replicate (nat (N * 2 * (N * 2))) 0)[0 := 1]\<rparr>)
                      Others))"
    by (rule Cons.IH [OF rest Cons.prems(2)]) simp
  finally show ?case by simp
qed

text \<open>
  Claim C8, amended: when no layer but the first has a polygon (and the grid is not
  empty), the first layer has weight 255 at every pixel, and every other layer has
  weight 1 at the first pixel of the grid (index 0) and weight 0 at every other pixel.
\<close>

theorem C8_no_polygons:
  assumes "\<forall>Name \<in> set Others. GetPolygonWaysForLayer Name MiscWays = []" and "N \<noteq> 0"
  shows "CreateLandscape tlocal sqdist ccancel N qs bg MiscWays (Base # Others)
           = Inr (Some (\<lparr>LayerName = Base, LayerData = replicate (nat (N * 2 * (N * 2))) 255\<rparr> #
                  map (\<lambda>Name. \<lparr>LayerName = Name,
                                 LayerData = (replicate (nat (N * 2 * (N * 2))) 0)[0 := 1]\<rparr>)
                      Others))"
proof -
  let ?B = "\<lparr>LayerName = Base, LayerData = replicate (nat (N * 2 * (N * 2))) (255 :: uint8)\<rparr>"
  have "CreateLandscape tlocal sqdist ccancel N qs bg MiscWays (Base # Others)
          = FillLayers tlocal sqdist ccancel N qs bg MiscWays Others [?B]"
    by (simp add: CreateLandscape_def Let_def)
  also have "\<dots> = Inr (Some ([?B] @
                  map (\<lambda>Name. \<lparr>LayerName = Name,
                                 LayerData = (replicate (nat (N * 2 * (N * 2))) 0)[0 := 1]\<rparr>)
                      Others))"
    by (rule FillLayers_no_polygons [OF assms]) simp
  finally show ?thesis by simp
qed

theorem C8_witness:
  "CreateLandscape (\<lambda>p. p) ExampleDistance (\<lambda>name k. False) 1 1 1 UnusedWays
       [''Base'', ''Grass'', ''WOOD'']
     = Inr (Some [\<lparr>LayerName = ''Base'', LayerData = [255, 255, 255, 255]\<rparr>,
                  \<lparr>LayerName = ''Grass'', LayerData = [1, 0, 0, 0]\<rparr>,
                  \<lparr>LayerName = ''WOOD'', LayerData = [1, 0, 0, 0]\<rparr>])"
proof -
  have h: "\<forall>Name \<in> set [''Grass'', ''WOOD'']. GetPolygonWaysForLayer Name UnusedWays = []"
    using ways_unused by simp
  have p: "(1 :: int) \<noteq> 0"
    by simp
  from C8_no_polygons [OF h p, of "\<lambda>p. p" ExampleDistance "\<lambda>name k. False" 1 1 "''Base''"]
  show ?thesis by (simp add: four)
qed

text \<open>
  Claim C2, as stated: at every pixel the weights of all layers sum to 255, give or
  take 1, for any number of layers and any polygons.  With two layers without
  polygons behind the first, the sum at the first pixel is \<open>255 + 1 + 1\<close>.
\<close>

theorem C2_three_layers_sum_257:
  "CreateLandscape (\<lambda>p. p) (\<lambda>ps p. (0, False)) (\<lambda>name k. False) 1 1 1 [] [''Base'', ''Grass'', ''Wood'']
     = Inr (Some [\<lparr>LayerName = ''Base'', LayerData = [255, 255, 255, 255]\<rparr>,
                  \<lparr>LayerName = ''Grass'', LayerData = [1, 0, 0, 0]\<rparr>,
                  \<lparr>LayerName = ''Wood'', LayerData = [1, 0, 0, 0]\<rparr>]) \<and>
   WeightSum 0 [\<lparr>LayerName = ''Base'', LayerData = [255, 255, 255, 255]\<rparr>,
                \<lparr>LayerName = ''Grass'', LayerData = [1, 0, 0, 0]\<rparr>,
                \<lparr>LayerName = ''Wood'', LayerData = [1, 0, 0, 0]\<rparr>] = 257 \<and>
   \<not> (254 \<le> (257 :: nat) \<and> (257 :: nat) \<le> 256)"
  by (simp add: CreateLandscape_def Let_def no_ways four)

text \<open>
  The weight \<open>p\<close> of an earlier layer becomes \<open>(255 - w) / 255 * p\<close> rounded, which is
  \<open>(2 * (255 - w) * p + 255) div 510\<close>: a multiple of \<open>1 / 255\<close> is never half way between
  two integers, so the rounded weight is within \<open>127 / 255\<close> of the exact one, it is not
  greater than \<open>p\<close>, and it is 0 when \<open>p\<close> is.
\<close>

lemma unat_word_of_int_uint8:
  "0 \<le> q \<Longrightarrow> q < 256 \<Longrightarrow> unat (word_of_int q :: uint8) = nat q"
  by (simp add: unsigned_of_int take_bit_int_eq_self)

lemma unat_uint8_le: "unat (w :: uint8) \<le> 255"
proof -
  have "unat w < 2 ^ LENGTH(8)" by (rule unsigned_less)
  then show ?thesis by simp
qed

lemma round_ramp:
  fixes w p :: nat
  shows "\<lfloor>(255 - real w) / 255 * real p + 1 / 2\<rfloor> = (2 * ((255 - int w) * int p) + 255) div 510"
proof -
  have "(255 - real w) / 255 * real p + 1 / 2
          = real_of_int (2 * ((255 - int w) * int p) + 255) / real_of_int 510"
    by (simp add: field_simps)
  then show ?thesis
    by (simp only: floor_divide_of_int_eq)
qed

lemma round_ramp_bounds:
  fixes k q :: int
  assumes "q = (2 * k + 255) div 510" "0 \<le> k" "k \<le> 65025"
  shows "0 \<le> q \<and> q \<le> 255 \<and> \<bar>255 * q - k\<bar> \<le> 127 \<and> (k = 0 \<longrightarrow> q = 0) \<and> 255 * q \<le> k + 127"
proof -
  define r where "r = (2 * k + 255) mod 510"
  have e: "2 * k + 255 = 510 * q + r"
    unfolding r_def assms(1) by simp
  have r: "0 \<le> r" "r < 510"
    by (simp_all add: r_def)
  from e r assms(2,3) have "0 \<le> q" "q \<le> 255" "\<bar>255 * q - k\<bar> \<le> 127" "k = 0 \<longrightarrow> q = 0"
    "255 * q \<le> k + 127"
    by linarith+
  then show ?thesis by simp
qed

lemma ramp_product:
  fixes w p :: nat
  assumes "w \<le> 255" "p \<le> 255"
  shows "0 \<le> (255 - int w) * int p \<and> (255 - int w) * int p \<le> 65025"
proof -
  have a: "0 \<le> 255 - int w" "255 - int w \<le> 255" using assms by simp_all
  have b: "0 \<le> int p" "int p \<le> 255" using assms by simp_all
  have "(255 - int w) * int p \<le> 255 * 255"
    using a b by (intro mult_mono) simp_all
  moreover have "0 \<le> (255 - int w) * int p"
    using a b by simp
  ultimately show ?thesis by simp
qed

lemma RampDown_cell:
  assumes "RampDown i ((255 - real w) / 255) prev = Inr prev'" and "w \<le> 255"
  shows "length prev' = length prev \<and>
         \<bar>255 * int (TaggedSum i ts prev') - (255 - int w) * int (TaggedSum i ts prev)\<bar>
           \<le> 127 * int (TaggedNonzero i ts prev) \<and>
         TaggedNonzero i ts prev' \<le> TaggedNonzero i ts prev \<and>
         TaggedSum i ts prev' \<le> TaggedSum i ts prev \<and>
         (\<forall>j. j \<noteq> i \<longrightarrow> TaggedSum j ts prev' = TaggedSum j ts prev \<and>
                TaggedNonzero j ts prev' = TaggedNonzero j ts prev)"
  using assms(1)
proof (induction prev arbitrary: prev' ts)
  case Nil
  then show ?case by simp
next
  case (Cons L rest)
  define p where "p = unat (LayerData L ! i)"
  define k where "k = (255 - int w) * int p"
  from Cons.prems obtain q rest' where
    i: "i < length (LayerData L)"
    and q: "RoundToInt (Finite ((255 - real w) / 255 * real p)) = Inr q"
    and r: "RampDown i ((255 - real w) / 255) rest = Inr rest'"
    and prev': "prev' = L\<lparr>LayerData := (LayerData L)[i := word_of_int q]\<rparr> # rest'"
    by (auto simp: p_def split: if_splits sum.splits)
  have l: "length rest' = length rest"
    using Cons.IH [OF r, of "[]"] by simp
  show ?case
  proof (cases ts)
    case Nil
    then show ?thesis using l by (simp add: prev')
  next
    case (Cons t ts')
    have p255: "p \<le> 255"
      unfolding p_def by (rule unat_uint8_le)
    from q have "q = \<lfloor>(255 - real w) / 255 * real p + 1 / 2\<rfloor>"
      by (auto split: if_splits)
    then have qk: "q = (2 * k + 255) div 510"
      unfolding k_def by (simp only: round_ramp)
    have kb: "0 \<le> k" "k \<le> 65025"
      using ramp_product [OF assms(2) p255] unfolding k_def by simp_all
    from round_ramp_bounds [OF qk kb] have
      q0: "0 \<le> q" and q255: "q \<le> 255" and qe: "\<bar>255 * q - k\<bar> \<le> 127"
      and qz: "k = 0 \<longrightarrow> q = 0" and qu: "255 * q \<le> k + 127"
      by simp_all
    have kp: "k \<le> 255 * int p"
    proof -
      have "(255 - int w) * int p \<le> 255 * int p"
        by (intro mult_right_mono) simp_all
      then show ?thesis by (simp add: k_def)
    qed
    have qp: "q \<le> int p"
      using qu kp by linarith
    have u: "unat (word_of_int q :: uint8) = nat q"
      using q0 q255 by (simp add: unat_word_of_int_uint8)
    have pz: "LayerData L ! i = 0 \<longleftrightarrow> p = 0"
      unfolding p_def by (simp add: unsigned_eq_0_iff)
    have qz': "(word_of_int q :: uint8) = 0 \<longleftrightarrow> q = 0"
    proof
      assume "(word_of_int q :: uint8) = 0"
      then have "unat (word_of_int q :: uint8) = 0" by simp
      with u q0 show "q = 0" by simp
    qed simp
    from Cons.IH [OF r, of ts'] have
      s: "\<bar>255 * int (TaggedSum i ts' rest') - (255 - int w) * int (TaggedSum i ts' rest)\<bar>
              \<le> 127 * int (TaggedNonzero i ts' rest)"
      and n: "TaggedNonzero i ts' rest' \<le> TaggedNonzero i ts' rest"
      and d: "TaggedSum i ts' rest' \<le> TaggedSum i ts' rest"
      and o: "\<forall>j. j \<noteq> i \<longrightarrow> TaggedSum j ts' rest' = TaggedSum j ts' rest \<and>
                 TaggedNonzero j ts' rest' = TaggedNonzero j ts' rest"
      by auto
    have other: "\<forall>j. j \<noteq> i \<longrightarrow> TaggedSum j ts prev' = TaggedSum j ts (L # rest) \<and>
                   TaggedNonzero j ts prev' = TaggedNonzero j ts (L # rest)"
      using o by (simp add: prev' Cons)
    have kz: "p = 0 \<Longrightarrow> k = 0"
      by (simp add: k_def)
    show ?thesis
    proof (cases t)
      case False
      with s n d l other show ?thesis
        by (simp add: prev' Cons)
    next
      case True
      have ws': "int (TaggedSum i ts prev') = q + int (TaggedSum i ts' rest')"
        using i u q0 True by (simp add: prev' Cons)
      have ws: "(255 - int w) * int (TaggedSum i ts (L # rest))
                  = k + (255 - int w) * int (TaggedSum i ts' rest)"
        using True by (simp add: k_def p_def distrib_left Cons)
      have ws0: "int (TaggedSum i ts (L # rest)) = int p + int (TaggedSum i ts' rest)"
        using True by (simp add: p_def Cons)
      have nz': "int (TaggedNonzero i ts prev') = (if q = 0 then 0 else 1) + int (TaggedNonzero i ts' rest')"
        using i qz' True by (simp add: prev' Cons)
      have nz: "int (TaggedNonzero i ts (L # rest)) = (if p = 0 then 0 else 1) + int (TaggedNonzero i ts' rest)"
        using pz True by (simp add: Cons)
      have sum: "\<bar>255 * int (TaggedSum i ts prev') - (255 - int w) * int (TaggedSum i ts (L # rest))\<bar>
                   \<le> 127 * int (TaggedNonzero i ts (L # rest))"
      proof (cases "p = 0")
        case True
        with kz qz have "k = 0" "q = 0" by simp_all
        with s show ?thesis unfolding ws' ws nz using True by simp
      next
        case False
        with s qe show ?thesis unfolding ws' ws nz by simp
      qed
      have cnt: "TaggedNonzero i ts prev' \<le> TaggedNonzero i ts (L # rest)"
      proof -
        have "int (TaggedNonzero i ts prev') \<le> int (TaggedNonzero i ts (L # rest))"
          unfolding nz' nz using n kz qz by auto
        then show ?thesis by simp
      qed
      have dec: "TaggedSum i ts prev' \<le> TaggedSum i ts (L # rest)"
      proof -
        have "int (TaggedSum i ts prev') \<le> int (TaggedSum i ts (L # rest))"
          unfolding ws' ws0 using qp d by simp
        then show ?thesis by simp
      qed
      from l sum cnt dec other show ?thesis
        by (simp add: prev')
    qed
  qed
qed

lemma Untouched_refl: "Untouched c st st"
  by (simp add: Untouched_def)

lemma Untouched_trans: "Untouched c a b \<Longrightarrow> Untouched c b d \<Longrightarrow> Untouched c a d"
  by (simp add: Untouched_def)

lemma Untouched_Repainted: "Untouched c a b \<Longrightarrow> Repainted c b d \<Longrightarrow> Repainted c a d"
  by (simp add: Untouched_def Repainted_def)

lemma Repainted_Untouched: "Repainted c a b \<Longrightarrow> Untouched c b d \<Longrightarrow> Repainted c a d"
  by (simp add: Untouched_def Repainted_def)

lemma PaintPixel_cell:
  assumes "PaintPixel i Lerp st = Inr st'"
  shows "0 \<le> i \<and> (nat i = c \<longrightarrow> Repainted c st st') \<and> (nat i \<noteq> c \<longrightarrow> Untouched c st st')"
proof -
  obtain prev wd where st: "st = (prev, wd)" by (cases st)
  from assms obtain q prev' where
    i: "0 \<le> i" "nat i < length wd"
    and r: "RampDown (nat i)
              ((255 - real (unat (wd[nat i := word_of_int (min 255 q)] ! nat i))) / 255) prev
            = Inr prev'"
    and st': "st' = (prev', wd[nat i := word_of_int (min 255 q)])"
    by (auto simp: PaintPixel_def st Let_def split: if_splits sum.splits)
  define wd' where "wd' = wd[nat i := word_of_int (min 255 q) :: uint8]"
  define w where "w = unat (wd' ! nat i)"
  have w255: "w \<le> 255"
    unfolding w_def by (rule unat_uint8_le)
  note rc = RampDown_cell [OF r [folded wd'_def, folded w_def] w255]
  have l: "length prev' = length prev"
    using rc [of "[]"] by simp
  have a: "Repainted c st st'" if "nat i = c"
    unfolding Repainted_def st st' wd'_def [symmetric]
    using l rc that by (simp add: w_def)
  have b: "Untouched c st st'" if "nat i \<noteq> c"
  proof -
    from that have "c \<noteq> nat i" by simp
    with rc l that show ?thesis
      unfolding Untouched_def st st' by simp
  qed
  from i a b show ?thesis by simp
qed

lemma PaintVertex_cell:
  assumes "PaintVertex sqd N Q BG P xy st = Inr st'"
  shows "(VertexPaints sqd N Q BG P c xy \<longrightarrow> Repainted c st st') \<and>
         (\<not> VertexPaints sqd N Q BG P c xy \<longrightarrow> Untouched c st st')"
proof -
  define loc where "loc = (real_of_int (fst xy) * Q * OSMToCentimetersScaleFactor,
                           real_of_int (snd xy) * Q * OSMToCentimetersScaleFactor)"
  define H where "H = BG * OSMToCentimetersScaleFactor * 0.5"
  define idx where "idx = (snd xy + N) * (N * 2) + fst xy + N"
  obtain d inside where d: "sqd (Points P) loc = (d, inside)"
    by (cases "sqd (Points P) loc")
  have vp: "VertexPaints sqd N Q BG P c xy \<longleftrightarrow> (inside \<or> d < H * H) \<and> idx = int c"
    unfolding VertexPaints_def Let_def loc_def [symmetric] H_def [symmetric] idx_def [symmetric]
    by (simp add: d)
  show ?thesis
  proof (cases "inside \<or> d < H * H")
    case False
    with assms have "st' = st"
      unfolding PaintVertex_def Let_def loc_def [symmetric] H_def [symmetric]
      by (simp add: d)
    with False vp show ?thesis
      by (simp add: Untouched_refl)
  next
    case True
    with assms obtain Lerp where "PaintPixel idx Lerp st = Inr st'"
      unfolding PaintVertex_def Let_def loc_def [symmetric] H_def [symmetric] idx_def [symmetric]
      by (simp add: d)
    from PaintPixel_cell [OF this, of c] have
      i: "0 \<le> idx" and a: "nat idx = c \<Longrightarrow> Repainted c st st'"
      and b: "nat idx \<noteq> c \<Longrightarrow> Untouched c st st'"
      by simp_all
    from i have "nat idx = c \<longleftrightarrow> idx = int c" by auto
    with True vp a b show ?thesis by auto
  qed
qed

lemma PaintVertices_cell:
  assumes "PaintVertices sqd N Q BG P xys st = Inr st'"
    and "length (filter (VertexPaints sqd N Q BG P c) xys) \<le> 1"
  shows "(length (filter (VertexPaints sqd N Q BG P c) xys) = 0 \<longrightarrow> Untouched c st st') \<and>
         (length (filter (VertexPaints sqd N Q BG P c) xys) = 1 \<longrightarrow> Repainted c st st')"
  using assms
proof (induction xys arbitrary: st)
  case Nil
  then show ?case by (simp add: Untouched_refl)
next
  case (Cons xy rest)
  from Cons.prems(1) obtain st1 where
    v: "PaintVertex sqd N Q BG P xy st = Inr st1"
    and r: "PaintVertices sqd N Q BG P rest st1 = Inr st'"
    by (auto split: sum.splits)
  note pv = PaintVertex_cell [OF v, of c]
  show ?case
  proof (cases "VertexPaints sqd N Q BG P c xy")
    case True
    with Cons.prems(2) have z: "length (filter (VertexPaints sqd N Q BG P c) rest) = 0"
      by simp
    with Cons.IH [OF r] have "Untouched c st1 st'" by simp
    moreover from pv True have "Repainted c st st1" by simp
    ultimately have "Repainted c st st'" by (rule Repainted_Untouched [rotated])
    with True z show ?thesis by simp
  next
    case False
    with Cons.prems(2) have le: "length (filter (VertexPaints sqd N Q BG P c) rest) \<le> 1"
      by simp
    from pv False have u: "Untouched c st st1" by simp
    from Cons.IH [OF r le] u False show ?thesis
      by (auto intro: Untouched_trans Untouched_Repainted)
  qed
qed

lemma RasterizePolygons_cell:
  assumes "RasterizePolygons TL sqd cancel N Q BG Name k polys st = Inr (Some st')"
    and "sum_list (map (PolygonPaintCount TL sqd N Q BG c) polys) \<le> 1"
  shows "(sum_list (map (PolygonPaintCount TL sqd N Q BG c) polys) = 0 \<longrightarrow> Untouched c st st') \<and>
         (sum_list (map (PolygonPaintCount TL sqd N Q BG c) polys) = 1 \<longrightarrow> Repainted c st st')"
  using assms
proof (induction polys arbitrary: st k)
  case Nil
  then show ?case by (simp add: Untouched_refl)
next
  case (Cons P rest)
  from Cons.prems(1) obtain st1 where
    v: "PaintVertices sqd N Q BG P (PolygonVertices TL N BG P) st = Inr st1"
    and r: "RasterizePolygons TL sqd cancel N Q BG Name (Suc k) rest st1 = Inr (Some st')"
    by (auto simp: RasterizePolygon_def split: sum.splits if_splits)
  define a where "a = PolygonPaintCount TL sqd N Q BG c P"
  define b where "b = sum_list (map (PolygonPaintCount TL sqd N Q BG c) rest)"
  have ab: "a + b \<le> 1"
    using Cons.prems(2) by (simp add: a_def b_def)
  have a1: "length (filter (VertexPaints sqd N Q BG P c) (PolygonVertices TL N BG P)) = a"
    by (simp add: a_def PolygonPaintCount_def)
  from ab have "a \<le> 1" by simp
  from PaintVertices_cell [OF v, of c] this have
    pa: "a = 0 \<Longrightarrow> Untouched c st st1" "a = 1 \<Longrightarrow> Repainted c st st1"
    unfolding a1 by simp_all
  from ab have "b \<le> 1" by simp
  from Cons.IH [OF r] this have
    pb: "b = 0 \<Longrightarrow> Untouched c st1 st'" "b = 1 \<Longrightarrow> Repainted c st1 st'"
    unfolding b_def by simp_all
  have "a + b = 0 \<longrightarrow> Untouched c st st'"
    using pa pb by (auto intro: Untouched_trans)
  moreover have "a + b = 1 \<longrightarrow> Repainted c st st'"
  proof
    assume "a + b = 1"
    then consider "a = 1" "b = 0" | "a = 0" "b = 1" by linarith
    then show "Repainted c st st'"
    proof cases
      case 1
      with pa pb show ?thesis by (auto intro: Repainted_Untouched)
    next
      case 2
      with pa pb show ?thesis by (auto intro: Untouched_Repainted)
    qed
  qed
  ultimately show ?case
    by (simp add: a_def b_def)
qed



lemma TaggedSum_snoc:
  "length ts = length acc \<Longrightarrow>
     TaggedSum c (ts @ [t]) (acc @ [L]) = TaggedSum c ts acc + (if t then unat (LayerData L ! c) else 0)"
  by (induction ts acc rule: list_induct2) simp_all

lemma TaggedNonzero_snoc:
  "length ts = length acc \<Longrightarrow>
     TaggedNonzero c (ts @ [t]) (acc @ [L])
       = TaggedNonzero c ts acc + (if t \<and> LayerData L ! c \<noteq> 0 then 1 else 0)"
  by (induction ts acc rule: list_induct2) simp_all

lemma TaggedSum_split:
  "length ts = length layers \<Longrightarrow>
     WeightSum c layers = TaggedSum c ts layers + TaggedSum c (map Not ts) layers"
  by (induction ts layers rule: list_induct2) simp_all

lemma repaint_sum:
  fixes S' x m :: nat
  assumes "\<bar>255 * int S' - (255 - int x) * 255\<bar> \<le> 127 * int m"
  shows "m \<le> 2 \<Longrightarrow> S' + x = 255" and "m \<le> 3 \<Longrightarrow> 254 \<le> S' + x \<and> S' + x \<le> 256"
proof -
  have e: "(255 - int x) * 255 = 255 * 255 - 255 * int x"
    by (simp add: algebra_simps)
  from assms e have a: "\<bar>255 * int S' + 255 * int x - 255 * 255\<bar> \<le> 127 * int m"
    by simp
  show "S' + x = 255" if "m \<le> 2"
    using a that by linarith
  show "254 \<le> S' + x \<and> S' + x \<le> 256" if "m \<le> 3"
    using a that by linarith
qed

lemma marker_weight:
  assumes "c < n"
  shows "unat (((replicate n 0)[0 := 1] :: uint8 list) ! c) = (if c = 0 then 1 else 0)"
  using assms by (cases "c = 0") simp_all

lemma FillLayers_cell:
  assumes "FillLayers TL sqd cc N Q BG ways names acc = Inr (Some out)"
    and "acc \<noteq> []" and "length ts = length acc" and "c < nat (N * 2 * (N * 2))"
    and "\<forall>Name \<in> set names. PaintCount TL sqd N Q BG ways c Name \<le> 1"
  shows "length out = length acc + length names \<and>
         TaggedSum c (map Not (ts @ map (\<lambda>Name. GetPolygonWaysForLayer Name ways \<noteq> []) names)) out
           \<le> TaggedSum c (map Not ts) acc + (if c = 0 then Markers ways names else 0) \<and>
         (Painters TL sqd N Q BG ways c names = 0 \<longrightarrow>
            TaggedSum c (ts @ map (\<lambda>Name. GetPolygonWaysForLayer Name ways \<noteq> []) names) out
              = TaggedSum c ts acc \<and>
            TaggedSum c (map Not (ts @ map (\<lambda>Name. GetPolygonWaysForLayer Name ways \<noteq> []) names)) out
              = TaggedSum c (map Not ts) acc + (if c = 0 then Markers ways names else 0)) \<and>
         (TaggedSum c ts acc = 255 \<and>
            TaggedNonzero c ts acc + Painters TL sqd N Q BG ways c names \<le> 3 \<longrightarrow>
            TaggedSum c (ts @ map (\<lambda>Name. GetPolygonWaysForLayer Name ways \<noteq> []) names) out = 255) \<and>
         (TaggedSum c ts acc = 255 \<and>
            TaggedNonzero c ts acc + Painters TL sqd N Q BG ways c names \<le> 4 \<longrightarrow>
            254 \<le> TaggedSum c (ts @ map (\<lambda>Name. GetPolygonWaysForLayer Name ways \<noteq> []) names) out \<and>
            TaggedSum c (ts @ map (\<lambda>Name. GetPolygonWaysForLayer Name ways \<noteq> []) names) out \<le> 256)"
  using assms(1,2,3,5)
proof (induction names arbitrary: acc ts)
  case Nil
  then show ?case by (simp add: Painters_def Markers_def)
next
  case (Cons Name rest)
  define n where "n = nat (N * 2 * (N * 2))"
  define polys where "polys = GetPolygonWaysForLayer Name ways"
  define pc where "pc = PaintCount TL sqd N Q BG ways c Name"
  define r where "r = Painters TL sqd N Q BG ways c rest"
  define M where "M = Markers ways rest"
  define tsR where "tsR = map (\<lambda>Name. GetPolygonWaysForLayer Name ways \<noteq> []) rest"
  define A where "A = TaggedSum c ts acc"
  define K where "K = TaggedSum c (map Not ts) acc"
  define m where "m = TaggedNonzero c ts acc"
  have cn: "c < n"
    using assms(4) by (simp add: n_def)
  have nn: "nat (4 * (N * N)) = n"
    by (simp add: n_def)
  have pc1: "pc \<le> 1"
    using Cons.prems(4) by (simp add: pc_def)
  have once: "\<forall>Name \<in> set rest. PaintCount TL sqd N Q BG ways c Name \<le> 1"
    using Cons.prems(4) by simp
  have pcs: "pc = sum_list (map (PolygonPaintCount TL sqd N Q BG c) polys)"
    by (simp add: pc_def PaintCount_def polys_def)
  have painters: "Painters TL sqd N Q BG ways c (Name # rest) = (if 0 < pc then Suc r else r)"
    by (simp add: Painters_def pc_def r_def)
  have markers: "Markers ways (Name # rest) = (if polys = [] then Suc M else M)"
    by (simp add: Markers_def polys_def M_def)
  have tags: "ts @ map (\<lambda>Name. GetPolygonWaysForLayer Name ways \<noteq> []) (Name # rest)
                = (ts @ [polys \<noteq> []]) @ tsR"
    by (simp add: polys_def tsR_def)
  have lt: "length (map Not ts) = length acc"
    using Cons.prems(3) by simp
  show ?case
  proof (cases "polys = []")
    case True
    define L where "L = \<lparr>LayerName = Name, LayerData = (replicate n 0)[0 := 1 :: uint8]\<rparr>"
    from Cons.prems(1,2) True have run: "FillLayers TL sqd cc N Q BG ways rest (acc @ [L]) = Inr (Some out)"
      by (simp add: Let_def polys_def [symmetric] nn L_def split: if_splits)
    have pc0: "pc = 0"
      using True by (simp add: pcs)
    have l1: "length (ts @ [False]) = length (acc @ [L])"
      using Cons.prems(3) by simp
    have A1: "TaggedSum c (ts @ [False]) (acc @ [L]) = A"
      by (simp add: TaggedSum_snoc [OF Cons.prems(3)] A_def)
    have m1: "TaggedNonzero c (ts @ [False]) (acc @ [L]) = m"
      by (simp add: TaggedNonzero_snoc [OF Cons.prems(3)] m_def)
    have K1: "TaggedSum c (map Not (ts @ [False])) (acc @ [L]) = K + (if c = 0 then 1 else 0)"
      using marker_weight [OF cn] TaggedSum_snoc [OF lt, of c True L]
      by (simp add: K_def L_def)
    have ne: "acc @ [L] \<noteq> []" by simp
    note IH = Cons.IH [OF run ne l1 once, folded r_def M_def tsR_def, unfolded A1 m1 K1]
    show ?thesis
      unfolding painters markers tags A_def [symmetric] K_def [symmetric] m_def [symmetric]
      using IH True pc0 by auto
  next
    case False
    from Cons.prems(1,2) False obtain acc' wd' where
      ras: "RasterizePolygons TL sqd cc N Q BG Name 0 polys (acc, replicate n 0)
              = Inr (Some (acc', wd'))"
      and run: "FillLayers TL sqd cc N Q BG ways rest
                  (acc' @ [\<lparr>LayerName = Name, LayerData = wd'\<rparr>]) = Inr (Some out)"
      by (auto simp: Let_def polys_def [symmetric] nn
               split: if_splits sum.splits option.splits prod.splits)
    define L where "L = \<lparr>LayerName = Name, LayerData = wd'\<rparr>"
    define x where "x = unat (wd' ! c)"
    from pc1 have "sum_list (map (PolygonPaintCount TL sqd N Q BG c) polys) \<le> 1"
      by (simp add: pcs)
    note rc = RasterizePolygons_cell [OF ras this, folded pcs]
    have len: "length acc' = length acc"
      using rc pc1 by (cases "pc = 0") (auto simp: Untouched_def Repainted_def)
    have la: "length ts = length acc'"
      using len Cons.prems(3) by simp
    have lt': "length (map Not ts) = length acc'"
      using la by simp
    have l1: "length (ts @ [True]) = length (acc' @ [L])"
      using la by simp
    have ne: "acc' @ [L] \<noteq> []" by simp
    have A1: "TaggedSum c (ts @ [True]) (acc' @ [L]) = TaggedSum c ts acc' + x"
      by (simp add: TaggedSum_snoc [OF la] L_def x_def)
    have m1: "TaggedNonzero c (ts @ [True]) (acc' @ [L]) \<le> TaggedNonzero c ts acc' + 1"
      by (simp add: TaggedNonzero_snoc [OF la])
    have K1: "TaggedSum c (map Not (ts @ [True])) (acc' @ [L]) = TaggedSum c (map Not ts) acc'"
      using TaggedSum_snoc [OF lt', of c False L] by simp
    note IH = Cons.IH [OF run [folded L_def] ne l1 once, folded r_def M_def tsR_def, unfolded K1]
    have m1': "Markers ways (Name # rest) = M"
      using False by (simp add: markers)
    have tags': "ts @ map (\<lambda>Name. GetPolygonWaysForLayer Name ways \<noteq> []) (Name # rest)
                = (ts @ [True]) @ tsR"
      using False by (simp add: polys_def tsR_def)
    show ?thesis
    proof (cases "pc = 0")
      case True
      with rc have u: "Untouched c (acc, replicate n 0) (acc', wd')" by simp
      then have "wd' ! c = 0"
        using cn by (simp add: Untouched_def)
      then have x0: "x = 0"
        by (simp add: x_def)
      from u have same: "TaggedSum c ts acc' = A" "TaggedNonzero c ts acc' = m"
        "TaggedSum c (map Not ts) acc' = K"
        by (simp_all add: Untouched_def A_def m_def K_def)
      have A1': "TaggedSum c (ts @ [True]) (acc' @ [L]) = A"
        by (simp add: A1 x0 same)
      have m1'': "TaggedNonzero c (ts @ [True]) (acc' @ [L]) = m"
        using \<open>wd' ! c = 0\<close> by (simp add: TaggedNonzero_snoc [OF la] L_def same)
      have p0: "Painters TL sqd N Q BG ways c (Name # rest) = r"
        using True by (simp add: painters)
      show ?thesis
        unfolding p0 m1' tags' A_def [symmetric] K_def [symmetric] m_def [symmetric]
        using IH [unfolded A1' m1'' same] len by simp
    next
      case pos: False
      with pc1 have pc: "pc = 1" by simp
      with rc have rp: "Repainted c (acc, replicate n 0) (acc', wd')" by simp
      then have
        b: "\<bar>255 * int (TaggedSum c ts acc') - (255 - int x) * int A\<bar> \<le> 127 * int m"
        and mm: "TaggedNonzero c ts acc' \<le> m"
        and kk: "TaggedSum c (map Not ts) acc' \<le> K"
        by (simp_all add: Repainted_def x_def A_def m_def K_def)
      have b255: "\<bar>255 * int (TaggedSum c ts acc') - (255 - int x) * 255\<bar> \<le> 127 * int m"
        if "A = 255"
        using b unfolding that by simp
      have p1: "Painters TL sqd N Q BG ways c (Name # rest) = Suc r"
        using pc by (simp add: painters)
      from IH have
        ihl: "length out = length (acc' @ [L]) + length rest"
        and ihk: "TaggedSum c (map Not ((ts @ [True]) @ tsR)) out
                    \<le> TaggedSum c (map Not ts) acc' + (if c = 0 then M else 0)"
        and ih0: "r = 0 \<Longrightarrow> TaggedSum c ((ts @ [True]) @ tsR) out
                                = TaggedSum c (ts @ [True]) (acc' @ [L])"
        and ih3: "TaggedSum c (ts @ [True]) (acc' @ [L]) = 255 \<Longrightarrow>
                  TaggedNonzero c (ts @ [True]) (acc' @ [L]) + r \<le> 3 \<Longrightarrow>
                  TaggedSum c ((ts @ [True]) @ tsR) out = 255"
        and ih4: "TaggedSum c (ts @ [True]) (acc' @ [L]) = 255 \<Longrightarrow>
                  TaggedNonzero c (ts @ [True]) (acc' @ [L]) + r \<le> 4 \<Longrightarrow>
                  254 \<le> TaggedSum c ((ts @ [True]) @ tsR) out \<and>
                  TaggedSum c ((ts @ [True]) @ tsR) out \<le> 256"
        by simp_all
      have lenout: "length out = length acc + length (Name # rest)"
        using ihl len by simp
      have kout: "TaggedSum c (map Not ((ts @ [True]) @ tsR)) out \<le> K + (if c = 0 then M else 0)"
        using ihk kk by (auto split: if_splits)
      have two: "TaggedSum c ((ts @ [True]) @ tsR) out = 255"
        if "A = 255" "m + Suc r \<le> 3"
      proof -
        from that(2) have "m \<le> 2" by simp
        with repaint_sum(1) [OF b255 [OF that(1)]] have "TaggedSum c ts acc' + x = 255"
          by simp
        then have "TaggedSum c (ts @ [True]) (acc' @ [L]) = 255"
          by (simp add: A1)
        moreover have "TaggedNonzero c (ts @ [True]) (acc' @ [L]) + r \<le> 3"
          using m1 mm that(2) by simp
        ultimately show ?thesis by (rule ih3)
      qed
      have three: "254 \<le> TaggedSum c ((ts @ [True]) @ tsR) out \<and>
                   TaggedSum c ((ts @ [True]) @ tsR) out \<le> 256"
        if "A = 255" "m + Suc r \<le> 4"
      proof (cases "m \<le> 2")
        case True
        with repaint_sum(1) [OF b255 [OF that(1)]] have "TaggedSum c ts acc' + x = 255"
          by simp
        then have "TaggedSum c (ts @ [True]) (acc' @ [L]) = 255"
          by (simp add: A1)
        moreover have "TaggedNonzero c (ts @ [True]) (acc' @ [L]) + r \<le> 4"
          using m1 mm that(2) by simp
        ultimately show ?thesis by (rule ih4)
      next
        case False
        with that(2) have m3: "m \<le> 3" and r0: "r = 0" by simp_all
        from repaint_sum(2) [OF b255 [OF that(1)] m3]
        have "254 \<le> TaggedSum c (ts @ [True]) (acc' @ [L]) \<and>
              TaggedSum c (ts @ [True]) (acc' @ [L]) \<le> 256"
          by (simp add: A1)
        with ih0 [OF r0] show ?thesis by simp
      qed
      show ?thesis
        unfolding p1 m1' tags' A_def [symmetric] K_def [symmetric] m_def [symmetric]
        using lenout kout two three by simp
    qed
  qed
qed

text \<open>
  What the hypotheses of the amended claim below keep out.  A layer with two polygons
  that reach the same pixel paints it twice: the second weight replaces the first, and
  the earlier layers are scaled down both times.  And when four layers paint a pixel,
  the rounded weights can sum to a value that is 2 off.
\<close>

lemma ways_grass2: "GetPolygonWaysForLayer ''grass'' [ExampleWay, ExampleWay] = [ExampleWay, ExampleWay]"
  by (simp add: GetPolygonWaysForLayer_def LayerWayMapping_def FNameEqual_def FStringEqual_def
        FWayMatchEqual_def ToLower_def ExampleWay_def)

lemma example_polygon_again:
  "RasterizePolygon (\<lambda>p. p) ExampleDistance 1 1 (1 / 50) ExampleWay
       ([\<lparr>LayerName = ''Base'', LayerData = [255, 255, 255, 127]\<rparr>], [0, 0, 0, 128])
     = Inr ([\<lparr>LayerName = ''Base'', LayerData = [255, 255, 255, 63]\<rparr>], [0, 0, 0, 128])"
  by (simp add: RasterizePolygon_def example_vertices PaintVertex_def PaintPixel_def
        ExampleDistance_def OSMToCentimetersScaleFactor_def SMALL_NUMBER_def Let_def)

lemma painted_twice:
  "CreateLandscape (\<lambda>p. p) ExampleDistance (\<lambda>name k. False) 1 1 (1 / 50)
       [ExampleWay, ExampleWay] [''Base'', ''grass'']
     = Inr (Some [\<lparr>LayerName = ''Base'', LayerData = [255, 255, 255, 63]\<rparr>,
                  \<lparr>LayerName = ''grass'', LayerData = [0, 0, 0, 128]\<rparr>]) \<and>
   PaintCount (\<lambda>p. p) ExampleDistance 1 1 (1 / 50) [ExampleWay, ExampleWay] 3 ''grass'' = 2 \<and>
   WeightSum 3 [\<lparr>LayerName = ''Base'', LayerData = [255, 255, 255, 63]\<rparr>,
                \<lparr>LayerName = ''grass'', LayerData = [0, 0, 0, 128]\<rparr>] = 191"
  by (simp add: CreateLandscape_def Let_def four ways_grass2 example_polygon example_polygon_again
        PaintCount_def PolygonPaintCount_def example_vertices VertexPaints_def
        ExampleDistance_def OSMToCentimetersScaleFactor_def)

lemma sqrt_64_625: "sqrt (64 / 625) = 8 / 25"
  by (rule real_sqrt_unique) (simp_all add: power2_eq_square)

lemma ways_any_grass:
  "GetPolygonWaysForLayer ''Grass'' ExampleWays = [ExampleWay]"
  "GetPolygonWaysForLayer ''GRASS'' ExampleWays = [ExampleWay]"
  "GetPolygonWaysForLayer ''gRASS'' ExampleWays = [ExampleWay]"
  by (simp_all add: GetPolygonWaysForLayer_def LayerWayMapping_def FNameEqual_def FStringEqual_def
        FWayMatchEqual_def ToLower_def ExampleWays_def ExampleWay_def)

lemma paint_168:
  "PaintVertices (\<lambda>ps p. if p = (0, 0) then (64 / 625, True) else (1, False)) 1 1 (1 / 50)
       ExampleWay [(- 1, - 1), (0, - 1), (- 1, 0), (0, 0)] (prev, [0, 0, 0, 0])
     = PaintPixel 3 (Finite (33 / 50)) (prev, [0, 0, 0, 0])"
  by (simp add: PaintVertex_def OSMToCentimetersScaleFactor_def SMALL_NUMBER_def Let_def
        sqrt_64_625 split: sum.splits)

lemma painted_by_four:
  "CreateLandscape (\<lambda>p. p) (\<lambda>ps p. if p = (0, 0) then (64 / 625, True) else (1, False))
       (\<lambda>name k. False) 1 1 (1 / 50) ExampleWays
       [''Base'', ''Grass'', ''grass'', ''GRASS'', ''gRASS'']
     = Inr (Some [\<lparr>LayerName = ''Base'', LayerData = [255, 255, 255, 3]\<rparr>,
                  \<lparr>LayerName = ''Grass'', LayerData = [0, 0, 0, 6]\<rparr>,
                  \<lparr>LayerName = ''grass'', LayerData = [0, 0, 0, 19]\<rparr>,
                  \<lparr>LayerName = ''GRASS'', LayerData = [0, 0, 0, 57]\<rparr>,
                  \<lparr>LayerName = ''gRASS'', LayerData = [0, 0, 0, 168]\<rparr>]) \<and>
   WeightSum 3 [\<lparr>LayerName = ''Base'', LayerData = [255, 255, 255, 3]\<rparr>,
                \<lparr>LayerName = ''Grass'', LayerData = [0, 0, 0, 6]\<rparr>,
                \<lparr>LayerName = ''grass'', LayerData = [0, 0, 0, 19]\<rparr>,
                \<lparr>LayerName = ''GRASS'', LayerData = [0, 0, 0, 57]\<rparr>,
                \<lparr>LayerName = ''gRASS'', LayerData = [0, 0, 0, 168]\<rparr>] = 253"
  by (simp add: CreateLandscape_def Let_def four ways_grass ways_any_grass RasterizePolygon_def
        example_vertices paint_168 PaintPixel_def del: PaintVertices.simps)

text \<open>
  Claim C2, amended: when the rasterisation has run to its end, at every pixel of the
  grid that no layer has painted more than once (a layer paints a pixel once for each
  of its polygons that has the vertex in its extended bounding box, inside the polygon
  or nearer to it than half the blend gauge) and that at most three layers have
  painted, the weights of all layers sum to 255, give or take 1, and to 255 exactly
  when at most two layers have painted the pixel.  The first pixel of the grid is the
  exception: there every layer without polygons holds its marker, a weight of at most
  1, so the sum lies between 254 and 256 plus the number of such layers (between 255
  and 255 plus that number when at most two layers have painted the pixel, and it is
  255 plus that number when none has).
\<close>

theorem C2_weights_sum_to_255:
  assumes "CreateLandscape TL sqd cc N Q BG ways (Base # Others) = Inr (Some ImportLayers)"
    and "c < nat (N * 2 * (N * 2))"
    and "\<forall>Name \<in> set Others. PaintCount TL sqd N Q BG ways c Name \<le> 1"
  shows "(Painters TL sqd N Q BG ways c Others = 0 \<longrightarrow>
            WeightSum c ImportLayers = 255 + (if c = 0 then Markers ways Others else 0)) \<and>
         (Painters TL sqd N Q BG ways c Others \<le> 2 \<longrightarrow>
            255 \<le> WeightSum c ImportLayers \<and>
            WeightSum c ImportLayers \<le> 255 + (if c = 0 then Markers ways Others else 0)) \<and>
         (Painters TL sqd N Q BG ways c Others \<le> 3 \<longrightarrow>
            254 \<le> WeightSum c ImportLayers \<and>
            WeightSum c ImportLayers \<le> 256 + (if c = 0 then Markers ways Others else 0))"
proof -
  define n where "n = nat (N * 2 * (N * 2))"
  define B where "B = \<lparr>LayerName = Base, LayerData = replicate n (255 :: uint8)\<rparr>"
  define tsO where "tsO = map (\<lambda>Name. GetPolygonWaysForLayer Name ways \<noteq> []) Others"
  define r where "r = Painters TL sqd N Q BG ways c Others"
  define M where "M = (if c = 0 then Markers ways Others else 0)"
  have cn: "c < n"
    using assms(2) by (simp add: n_def)
  have nn: "nat (4 * (N * N)) = n"
    by (simp add: n_def)
  from assms(1) have run: "FillLayers TL sqd cc N Q BG ways Others [B] = Inr (Some ImportLayers)"
    by (simp add: CreateLandscape_def Let_def nn B_def)
  have A: "TaggedSum c [True] [B] = 255" and m: "TaggedNonzero c [True] [B] = 1"
    and K: "TaggedSum c (map Not [True]) [B] = 0"
    using cn by (simp_all add: B_def)
  have ne: "[B] \<noteq> []" and l: "length [True] = length [B]"
    by simp_all
  from FillLayers_cell [OF run ne l assms(2,3), folded tsO_def r_def, unfolded A m K]
  have len: "length ImportLayers = length [B] + length Others"
    and k: "TaggedSum c (map Not ([True] @ tsO)) ImportLayers \<le> M"
    and f0: "r = 0 \<Longrightarrow> TaggedSum c ([True] @ tsO) ImportLayers = 255 \<and>
                         TaggedSum c (map Not ([True] @ tsO)) ImportLayers = M"
    and f2: "r \<le> 2 \<Longrightarrow> TaggedSum c ([True] @ tsO) ImportLayers = 255"
    and f3: "r \<le> 3 \<Longrightarrow> 254 \<le> TaggedSum c ([True] @ tsO) ImportLayers \<and>
                          TaggedSum c ([True] @ tsO) ImportLayers \<le> 256"
    by (simp_all add: M_def)
  have "length ([True] @ tsO) = length ImportLayers"
    using len by (simp add: tsO_def)
  from TaggedSum_split [OF this, of c] have
    split: "WeightSum c ImportLayers = TaggedSum c ([True] @ tsO) ImportLayers
              + TaggedSum c (map Not ([True] @ tsO)) ImportLayers" .
  show ?thesis
    unfolding r_def [symmetric] M_def [symmetric] split
    using k f0 f2 f3 by auto
qed

theorem C2_weights_sum_witness:
  "CreateLandscape (\<lambda>p. p) ExampleDistance (\<lambda>name k. False) 1 1 (1 / 50) ExampleWays
       [''Base'', ''grass'', ''Rock'']
     = Inr (Some PaintedLayers) \<and>
   255 \<le> WeightSum 3 PaintedLayers \<and> WeightSum 3 PaintedLayers \<le> 255 \<and>
   WeightSum 0 PaintedLayers = 255 + 1"
proof -
  have once: "\<forall>Name \<in> set [''grass'', ''Rock''].
                PaintCount (\<lambda>p. p) ExampleDistance 1 1 (1 / 50) ExampleWays c Name \<le> 1"
    if "c = 3 \<or> c = 0" for c
    using that by (auto simp: example_counts)
  have p3: "Painters (\<lambda>p. p) ExampleDistance 1 1 (1 / 50) ExampleWays 3 [''grass'', ''Rock''] = 1"
    and p0: "Painters (\<lambda>p. p) ExampleDistance 1 1 (1 / 50) ExampleWays 0 [''grass'', ''Rock''] = 0"
    by (simp_all add: Painters_def example_counts)
  have m: "Markers ExampleWays [''grass'', ''Rock''] = 1"
    by (simp add: Markers_def ways_grass ways_Rock)
  have c3: "(3 :: nat) < nat (1 * 2 * (1 * 2))" and c0: "(0 :: nat) < nat (1 * 2 * (1 * 2))"
    by simp_all
  from C2_weights_sum_to_255 [OF painted_example c3 once] C2_weights_sum_to_255 [OF painted_example c0 once]
  show ?thesis
    unfolding p3 p0 m using painted_example by simp
qed

end
